theory Spec2Isabelle
  imports Complex_Main "HOL-Library.AList" "HOL-Library.Log_Nat"
begin

section \<open>Python values and errors\<close>

text \<open>
  Exceptions of the Python source are values: a function that can raise returns
  \<open>py_error + 'a\<close>, with \<open>Inl\<close> carrying the exception.
\<close>

datatype py_error =
  ZeroDivisionError | ValueError | IndexError | TypeError | AttributeError | OverflowError

section \<open>Slice selector (\<open>dicom_processor.py\<close>, \<open>DICOMProcessor.extract_key_slices\<close>)\<close>

text \<open>
  \<open>range(0, stop, step)\<close>: \<open>ValueError\<close> for a zero step, the multiples of
  \<open>step\<close> below \<open>stop\<close> for a positive step, the multiples above \<open>stop\<close>
  for a negative one.
\<close>

definition py_range :: "int \<Rightarrow> int \<Rightarrow> py_error + int list" where
  "py_range stop step =
     (if step = 0 then Inl ValueError
      else if 0 < step
        then Inr (map (\<lambda>k. int k * step) [0 ..< nat ((stop + step - 1) div step)])
        else Inr (map (\<lambda>k. int k * step) [0 ..< nat ((stop + step + 1) div step)]))"

text \<open>
  The body of the loop \<open>for i in range(0, total, step)\<close>:
  \<open>if i not in indices and len(indices) < self.num_slices: indices.append(i)\<close>.
\<close>

fun collect_indices :: "int \<Rightarrow> int list \<Rightarrow> int list \<Rightarrow> int list" where
  "collect_indices num_slices indices [] = indices"
| "collect_indices num_slices indices (i # rest) =
     collect_indices num_slices
       (if i \<notin> set indices \<and> int (length indices) < num_slices
        then indices @ [i] else indices)
       rest"

text \<open>
  Subscription \<open>xs[i]\<close> of a Python list. Indices from \<open>-len(xs)\<close> up to
  \<open>-1\<close> address the list from its end; anything outside
  \<open>-len(xs) .. len(xs) - 1\<close> raises \<open>IndexError\<close>.
\<close>

definition py_index :: "'a list \<Rightarrow> int \<Rightarrow> py_error + 'a" where
  "py_index xs i =
     (if 0 \<le> i \<and> i < int (length xs) then Inr (xs ! nat i)
      else if - int (length xs) \<le> i \<and> i < 0 then Inr (xs ! nat (int (length xs) + i))
      else Inl IndexError)"

text \<open>The comprehension \<open>[dicom_files[i] for i in ...]\<close>: the first failing read aborts it.\<close>

fun index_all :: "'a list \<Rightarrow> int list \<Rightarrow> py_error + 'a list" where
  "index_all xs [] = Inr []"
| "index_all xs (i # rest) =
     (case py_index xs i of
        Inl e \<Rightarrow> Inl e
      | Inr x \<Rightarrow> (case index_all xs rest of Inl e \<Rightarrow> Inl e | Inr ys \<Rightarrow> Inr (x # ys)))"

text \<open>
  The index computation of \<open>extract_key_slices\<close> once the series is longer than
  \<open>num_slices\<close> (\<open>total_len\<close> is the source's \<open>total\<close>): the middle index first, then the walk with stride
  \<open>total // (num_slices - 1)\<close>, and \<open>sorted(indices)\<close> at the end.
\<close>

definition key_slice_indices :: "int \<Rightarrow> int \<Rightarrow> py_error + int list" where
  "key_slice_indices num_slices total_len =
     (let indices = [total_len div 2] in
      if num_slices - 1 = 0 then Inl ZeroDivisionError
      else
        let step = total_len div (num_slices - 1) in
        (case py_range total_len step of
           Inl e \<Rightarrow> Inl e
         | Inr r \<Rightarrow> Inr (sort (collect_indices num_slices indices r))))"

definition extract_key_slices :: "int \<Rightarrow> 'a list \<Rightarrow> py_error + 'a list" where
  "extract_key_slices num_slices dicom_files =
     (if int (length dicom_files) \<le> num_slices then Inr dicom_files
      else
        (case key_slice_indices num_slices (int (length dicom_files)) of
           Inl e \<Rightarrow> Inl e
         | Inr indices \<Rightarrow> index_all dicom_files indices))"

section \<open>JSON values and Python dictionaries\<close>

text \<open>
  Item metadata, DAG configurations, Airflow's answers and the bodies the endpoints
  return are JSON. A dictionary keeps its keys in insertion order, so it is an
  association list with one entry per key.
\<close>

datatype jval =
    JNone
  | JStr string
  | JBool bool
  | JInt int
  | JList "jval list"
  | JDict "(string \<times> jval) list"

type_synonym jdict = "(string \<times> jval) list"

text \<open>Truth value of a Python object, as \<open>if x\<close>, \<open>not x\<close> and \<open>x or y\<close> read it.\<close>

fun truthy :: "jval \<Rightarrow> bool" where
  "truthy JNone = False"
| "truthy (JStr s) = (s \<noteq> [])"
| "truthy (JBool b) = b"
| "truthy (JInt i) = (i \<noteq> 0)"
| "truthy (JList vs) = (vs \<noteq> [])"
| "truthy (JDict kvs) = (kvs \<noteq> [])"

definition py_or :: "jval \<Rightarrow> jval \<Rightarrow> jval" where
  "py_or a b = (if truthy a then a else b)"

text \<open>\<open>d.get(k)\<close> and \<open>d.get(k, default)\<close>: the default stands in for a missing key only,
  not for a key stored with the value \<open>None\<close>.\<close>

definition dict_get :: "jdict \<Rightarrow> string \<Rightarrow> jval" where
  "dict_get d k = (case map_of d k of None \<Rightarrow> JNone | Some v \<Rightarrow> v)"

definition dict_get_default :: "jdict \<Rightarrow> string \<Rightarrow> jval \<Rightarrow> jval" where
  "dict_get_default d k dflt = (case map_of d k of None \<Rightarrow> dflt | Some v \<Rightarrow> v)"

text \<open>\<open>d.update(other)\<close>.\<close>

definition dict_update :: "jdict \<Rightarrow> jdict \<Rightarrow> jdict" where
  "dict_update d other = fold (\<lambda>kv acc. AList.update (fst kv) (snd kv) acc) other d"

text \<open>
  \<open>str(x)\<close>, as the f-strings apply it. On a string it is the string itself. The
  rendering of any other value is Python's built-in one; it is not modelled and is
  taken as the parameter \<open>repr\<close>.
\<close>

definition py_str :: "(jval \<Rightarrow> string) \<Rightarrow> jval \<Rightarrow> string" where
  "py_str repr v = (case v of JStr s \<Rightarrow> s | _ \<Rightarrow> repr v)"

section \<open>Strings\<close>

definition lower_char :: "char \<Rightarrow> char" where
  "lower_char c =
     (case map_of (zip ''ABCDEFGHIJKLMNOPQRSTUVWXYZ'' ''abcdefghijklmnopqrstuvwxyz'') c of
        None \<Rightarrow> c
      | Some l \<Rightarrow> l)"

text \<open>\<open>s.lower()\<close> on ASCII text.\<close>

definition py_lower :: "string \<Rightarrow> string" where
  "py_lower s = map lower_char s"

definition endswith :: "string \<Rightarrow> string \<Rightarrow> bool" where
  "endswith s suffix =
     (length suffix \<le> length s \<and> drop (length s - length suffix) s = suffix)"

definition is_space :: "char \<Rightarrow> bool" where
  "is_space c = (c \<in> set [CHR '' '', CHR 0x09, CHR 0x0A, CHR 0x0B, CHR 0x0C, CHR 0x0D])"

text \<open>\<open>s.strip()\<close>.\<close>

definition py_strip :: "string \<Rightarrow> string" where
  "py_strip s = rev (dropWhile is_space (rev (dropWhile is_space s)))"

section \<open>The persisted store and the outside world\<close>

text \<open>
  Girder keeps items and files in its database. Of an item the plugin reads
  \<open>_id\<close>, \<open>folderId\<close>, \<open>name\<close> and \<open>meta\<close> (an absent \<open>meta\<close> is the
  empty dictionary: \<open>item.get('meta', {})\<close>); of a file \<open>_id\<close>, its owning item,
  \<open>name\<close> and the creation time \<open>created\<close>.
\<close>

record item_doc =
  item_id :: string
  item_folderId :: string
  item_name :: string
  item_meta :: jdict

record file_doc =
  file_id :: string
  file_itemId :: string
  file_name :: string
  file_created :: int

text \<open>A request the Airflow client sends: the URL, and for a POST the JSON body.\<close>

datatype http_call = HttpPost string jdict | HttpGet string

text \<open>
  The state the endpoints act on: the two collections, and the log of the HTTP requests
  sent to Airflow so far (each request is a visible effect).
\<close>

record world =
  items :: "item_doc list"
  files :: "file_doc list"
  http_log :: "http_call list"

text \<open>The token document \<open>getCurrentToken()\<close> hands back.\<close>

datatype token = TokenDict jdict | TokenStr string | TokenAbsent

text \<open>
  What a request reads and cannot change: how Airflow answers (\<open>Inl\<close> is the text of
  the \<open>requests\<close> exception raised by \<open>post\<close>/\<open>get\<close>/\<open>raise_for_status\<close>, \<open>Inr\<close>
  the JSON object of the answer), the process environment, the user and token of the
  request, its headers (\<open>None\<close> when reading them raises), the value
  \<open>uuid.uuid4()\<close> returns, the clock, and the library functions \<open>Path(..).stem\<close> and
  \<open>str\<close> on values that are not strings.
\<close>

record environment =
  post_reply :: "string \<Rightarrow> jdict \<Rightarrow> string + jdict"
  get_reply :: "string \<Rightarrow> string + jdict"
  os_environ :: "(string \<times> string) list"
  current_user :: "jdict option"
  current_token :: token
  request_headers :: "(string \<times> string) list option"
  uuid4 :: string
  utc_now :: string
  path_stem :: "string \<Rightarrow> string"
  py_repr :: "jval \<Rightarrow> string"

text \<open>\<open>os.getenv(name, default)\<close> and \<open>os.getenv(name)\<close>.\<close>

definition getenv_default :: "environment \<Rightarrow> string \<Rightarrow> string \<Rightarrow> string" where
  "getenv_default env name dflt =
     (case map_of (os_environ env) name of None \<Rightarrow> dflt | Some v \<Rightarrow> v)"

definition getenv :: "environment \<Rightarrow> string \<Rightarrow> jval" where
  "getenv env name =
     (case map_of (os_environ env) name of None \<Rightarrow> JNone | Some v \<Rightarrow> JStr v)"

text \<open>The fields \<open>MedGemmaResource.__init__\<close> sets, with the client's \<open>api_base\<close>.\<close>

record resource =
  api_base :: string
  analysis_dag_id :: string
  zip_dag_id :: string
  processed_item_name :: string

section \<open>Girder's item model\<close>

text \<open>\<open>Item().childFiles(item)\<close>.\<close>

definition childFiles :: "world \<Rightarrow> item_doc \<Rightarrow> file_doc list" where
  "childFiles w item = filter (\<lambda>f. file_itemId f = item_id item) (files w)"

text \<open>
  \<open>Item().save(item)\<close>: the document replaces the stored one with the same \<open>_id\<close>
  (or is added when there is none).
\<close>

definition save_item :: "world \<Rightarrow> item_doc \<Rightarrow> world" where
  "save_item w item =
     (if item_id item \<in> set (map item_id (items w))
      then w\<lparr>items := map (\<lambda>i. if item_id i = item_id item then item else i) (items w)\<rparr>
      else w\<lparr>items := items w @ [item]\<rparr>)"

text \<open>
  \<open>Item().setMetadata(item, metadata)\<close> of Girder (\<open>allowNull\<close> is false): the new
  fields are merged into \<open>item['meta']\<close>, the fields given as \<open>None\<close> are removed,
  and the item is saved.
\<close>

definition setMetadata :: "world \<Rightarrow> item_doc \<Rightarrow> jdict \<Rightarrow> item_doc \<times> world" where
  "setMetadata w item metadata =
     (let merged = dict_update (item_meta item) metadata;
          toDelete = map fst (filter (\<lambda>kv. snd kv = JNone) metadata);
          cleaned = fold AList.delete toDelete merged;
          item' = item\<lparr>item_meta := cleaned\<rparr>
      in (item', save_item w item'))"


text \<open>\<open>Item().findOne(query)\<close>: the first stored item the query matches.\<close>

definition findOne :: "world \<Rightarrow> (item_doc \<Rightarrow> bool) \<Rightarrow> item_doc option" where
  "findOne w query = find query (items w)"

section \<open>Airflow client (\<open>airflow_integration.py\<close>, \<open>AirflowClient\<close>)\<close>

text \<open>
  Each method sends one request, which the log records, and either returns the JSON
  object of the answer or raises \<open>RuntimeError\<close> with the message built here
  (\<open>Inl\<close>).
\<close>

definition trigger_dag ::
  "environment \<Rightarrow> resource \<Rightarrow> world \<Rightarrow> string \<Rightarrow> jdict \<Rightarrow> string \<Rightarrow> (string + jdict) \<times> world" where
  "trigger_dag env self w dag_id conf dag_run_id =
     (let url = api_base self @ ''/dags/'' @ dag_id @ ''/dagRuns'';
          payload = [(''conf'', JDict conf), (''logical_date'', JStr (utc_now env))];
          payload = (if dag_run_id = [] then payload
                     else AList.update ''dag_run_id'' (JStr dag_run_id) payload);
          w' = w\<lparr>http_log := http_log w @ [HttpPost url payload]\<rparr>
      in case post_reply env url payload of
           Inl e \<Rightarrow> (Inl (''Failed to trigger DAG '' @ dag_id @ '': '' @ e), w')
         | Inr result \<Rightarrow> (Inr result, w'))"

definition get_dag_run_status ::
  "environment \<Rightarrow> resource \<Rightarrow> world \<Rightarrow> string \<Rightarrow> string \<Rightarrow> (string + jdict) \<times> world" where
  "get_dag_run_status env self w dag_id dag_run_id =
     (let url = api_base self @ ''/dags/'' @ dag_id @ ''/dagRuns/'' @ dag_run_id;
          w' = w\<lparr>http_log := http_log w @ [HttpGet url]\<rparr>
      in case get_reply env url of
           Inl e \<Rightarrow> (Inl (''Failed to get DAG run status for '' @ dag_run_id @ '': '' @ e), w')
         | Inr result \<Rightarrow> (Inr result, w'))"

definition get_dag_run_tasks ::
  "environment \<Rightarrow> resource \<Rightarrow> world \<Rightarrow> string \<Rightarrow> string \<Rightarrow> (string + jdict) \<times> world" where
  "get_dag_run_tasks env self w dag_id dag_run_id =
     (let url = api_base self @ ''/dags/'' @ dag_id @ ''/dagRuns/'' @ dag_run_id
                  @ ''/taskInstances'';
          w' = w\<lparr>http_log := http_log w @ [HttpGet url]\<rparr>
      in case get_reply env url of
           Inl e \<Rightarrow> (Inl (''Failed to get task instances for '' @ dag_run_id @ '': '' @ e), w')
         | Inr result \<Rightarrow> (Inr result, w'))"

section \<open>Helpers of the plugin (\<open>girder_plugin.py\<close>, \<open>MedGemmaResource\<close>)\<close>

definition header_get :: "(string \<times> string) list \<Rightarrow> string \<Rightarrow> jval" where
  "header_get h k = (case map_of h k of None \<Rightarrow> JNone | Some v \<Rightarrow> JStr v)"

definition header_token :: "environment \<Rightarrow> jval" where
  "header_token env =
     (case request_headers env of
        None \<Rightarrow> JNone
      | Some h \<Rightarrow> py_or (header_get h ''Girder-Token'') (header_get h ''girder-token''))"

text \<open>\<open>_token_value\<close>.\<close>

definition token_value :: "environment \<Rightarrow> jval" where
  "token_value env =
     (case current_token env of
        TokenDict t \<Rightarrow>
          if truthy (dict_get t ''token'') then dict_get t ''token''
          else if truthy (dict_get t ''accessToken'') then dict_get t ''accessToken''
          else header_token env
      | TokenStr s \<Rightarrow> JStr s
      | TokenAbsent \<Rightarrow> header_token env)"

text \<open>\<open>_default_output_item_name\<close>.\<close>

definition default_output_item_name :: "environment \<Rightarrow> resource \<Rightarrow> string \<Rightarrow> string" where
  "default_output_item_name env self source_file_name =
     (let stem = py_strip (path_stem env source_file_name)
      in if stem = [] then processed_item_name self else stem @ ''_triage'')"

text \<open>
  \<open>_latest_zip_file\<close>. \<open>sort(key=created, reverse=True)\<close> is stable: among files
  created at the same time the one listed first stays first.
\<close>

definition latest_zip_file :: "world \<Rightarrow> item_doc \<Rightarrow> file_doc option" where
  "latest_zip_file w item =
     (let zip_files = filter (\<lambda>f. endswith (py_lower (file_name f)) ''.zip'') (childFiles w item)
      in if zip_files = [] then None
         else Some (hd (sort_key (\<lambda>f. - file_created f) zip_files)))"

text \<open>\<open>_already_processed_item\<close>.\<close>

definition already_processed_item :: "world \<Rightarrow> string \<Rightarrow> string \<Rightarrow> string \<Rightarrow> item_doc option" where
  "already_processed_item w source_item_id folder_id processed_name =
     findOne w (\<lambda>i. item_folderId i = folder_id \<and> item_name i = processed_name
                    \<and> map_of (item_meta i) ''source_item_id'' = Some (JStr source_item_id))"

text \<open>\<open>_set_trigger_metadata\<close>; the result is the metadata written and the new store.\<close>

definition set_trigger_metadata ::
  "environment \<Rightarrow> world \<Rightarrow> item_doc \<Rightarrow> string \<Rightarrow> jdict \<Rightarrow> jdict \<times> world" where
  "set_trigger_metadata env w item dag_id dag_run =
     (let user = (case current_user env of None \<Rightarrow> [] | Some u \<Rightarrow> u);
          metadata =
            [(''airflow_dag_id'', JStr dag_id),
             (''airflow_job_id'', dict_get dag_run ''dag_run_id''),
             (''analysis_status'', dict_get_default dag_run ''state'' (JStr ''queued'')),
             (''job_started'', dict_get dag_run ''logical_date''),
             (''triggered_by'', dict_get_default user ''login'' (dict_get user ''_id'')),
             (''triggered_at'', JStr (utc_now env))]
      in (metadata, snd (setMetadata w item metadata)))"

text \<open>\<open>x or default\<close> for an optional string parameter of a route.\<close>

definition param_or :: "string option \<Rightarrow> string \<Rightarrow> string" where
  "param_or p dflt = (case p of None \<Rightarrow> dflt | Some s \<Rightarrow> if s = [] then dflt else s)"

section \<open>Job orchestrator: \<open>trigger_zip_pipeline\<close> and \<open>analyze_item\<close>\<close>

text \<open>
  An endpoint takes the store and returns the JSON body it answers with and the store
  it leaves. The \<open>try\<close> around the trigger catches every exception, so the only
  outcomes are bodies.
\<close>

definition trigger_zip_pipeline ::
  "environment \<Rightarrow> resource \<Rightarrow> world \<Rightarrow> item_doc \<Rightarrow> string option \<Rightarrow> string option
     \<Rightarrow> jdict \<times> world" where
  "trigger_zip_pipeline env self w item folder_id new_item_name =
     (case latest_zip_file w item of
        None \<Rightarrow> ([(''error'', JStr ''No ZIP file found in item'')], w)
      | Some zip_file \<Rightarrow>
          let girder_url = getenv_default env ''GIRDER_URL'' ''http://localhost:8080'';
              girder_token = token_value env
          in if \<not> truthy girder_token
             then ([(''error'', JStr ''No Girder API token in current request context'')], w)
             else
               let meta = item_meta item;
                   current_status = dict_get meta ''analysis_status''
               in if current_status \<in> set [JStr ''queued'', JStr ''running'']
                  then ([(''status'', JStr ''in_progress''),
                         (''warning'', JStr ''Processing is already running for this item.''),
                         (''job_id'', dict_get meta ''airflow_job_id''),
                         (''dag_id'', dict_get_default meta ''airflow_dag_id'' (JStr (zip_dag_id self)))],
                        w)
                  else
                    let source_item_id = item_id item;
                        target_folder_id = param_or folder_id (item_folderId item);
                        target_item_name =
                          param_or new_item_name
                            (default_output_item_name env self (file_name zip_file));
                        existing_processed =
                          already_processed_item w source_item_id target_folder_id target_item_name
                    in if (case existing_processed of Some p \<Rightarrow> True
                             | None \<Rightarrow> truthy (dict_get meta ''processed_dicom_ready''))
                       then ([(''status'', JStr ''already_processed''),
                              (''warning'', JStr ''Image is already processed for this item.''),
                              (''processed_item_id'',
                                 JStr (case existing_processed of None \<Rightarrow> [] | Some p \<Rightarrow> item_id p)),
                              (''processed_item_name'', JStr target_item_name)],
                             w)
                       else
                         let job_id = uuid4 env;
                             dag_run_id = ''manual__girder_'' @ job_id;
                             dag_conf =
                               [(''job_id'', JStr job_id),
                                (''file_id'', JStr (file_id zip_file)),
                                (''file_name'', JStr (file_name zip_file)),
                                (''girder_url'', JStr girder_url),
                                (''girder_token'', girder_token),
                                (''remote_zip_path'',
                                   JStr (getenv_default env ''ZIP_REMOTE_PATH'' ''/tmp/girder_zips/'')),
                                (''source_item_id'', JStr source_item_id),
                                (''folder_id'', JStr target_folder_id),
                                (''item_name'', JStr target_item_name)]
                         in case trigger_dag env self w (zip_dag_id self) dag_conf dag_run_id of
                              (Inr dag_run, w1) \<Rightarrow>
                                ([(''status'', JStr ''ZIP pipeline started''),
                                  (''dag_id'', JStr (zip_dag_id self)),
                                  (''job_id'', dict_get dag_run ''dag_run_id''),
                                  (''item_id'', JStr (item_id item)),
                                  (''folder_id'', JStr target_folder_id),
                                  (''file_id'', JStr (file_id zip_file)),
                                  (''file_name'', JStr (file_name zip_file)),
                                  (''output_item_name'', JStr target_item_name),
                                  (''message'',
                                     JStr ''Use /api/v1/medgemma/zip-status/{job_id} for state checks'')],
                                 snd (set_trigger_metadata env w1 item (zip_dag_id self) dag_run))
                            | (Inl e, w1) \<Rightarrow>
                                ([(''error'', JStr (''Failed to trigger ZIP pipeline: '' @ e))], w1))"

text \<open>The loop of \<open>analyze_item\<close> over the item's files: the last ZIP file, every DICOM file.\<close>

fun scan_files :: "file_doc list \<Rightarrow> file_doc option \<times> file_doc list
                     \<Rightarrow> file_doc option \<times> file_doc list" where
  "scan_files [] acc = acc"
| "scan_files (f # fs) (zip_file, dicom_files) =
     scan_files fs
       (if endswith (file_name f) ''.zip'' then (Some f, dicom_files)
        else if endswith (file_name f) ''.dcm'' then (zip_file, dicom_files @ [f])
        else (zip_file, dicom_files))"

definition analyze_item ::
  "environment \<Rightarrow> resource \<Rightarrow> world \<Rightarrow> item_doc \<Rightarrow> string option \<Rightarrow> jdict \<times> world" where
  "analyze_item env self w item hf_token_param =
     (case scan_files (childFiles w item) (None, []) of
        (zip_file, dicom_files) \<Rightarrow>
          if zip_file = None \<and> dicom_files = []
          then ([(''error'', JStr ''No ZIP or DICOM files found in item'')], w)
          else
            let job_id = uuid4 env;
                girder_url = getenv_default env ''GIRDER_URL'' ''http://localhost:8080'';
                hf_token = py_or (case hf_token_param of None \<Rightarrow> JNone | Some t \<Rightarrow> JStr t)
                                 (getenv env ''HUGGINGFACE_TOKEN'')
            in if \<not> truthy hf_token
               then ([(''error'', JStr ''Hugging Face token not provided'')], w)
               else
                 let dag_conf =
                       [(''job_id'', JStr job_id),
                        (''item_id'', JStr (item_id item)),
                        (''girder_url'', JStr girder_url),
                        (''girder_token'', token_value env),
                        (''hf_token'', hf_token),
                        (''extract_dir'', JStr (''/tmp/medgemma_extract_'' @ job_id)),
                        (''anonymized_dir'', JStr (''/tmp/medgemma_anonymized_'' @ job_id)),
                        (''output_dir'', JStr (''/tmp/medgemma_output_'' @ job_id))];
                     dag_conf =
                       (case zip_file of
                          None \<Rightarrow> dag_conf
                        | Some z \<Rightarrow>
                            AList.update ''remote_zip_path''
                              (JStr (''/tmp/medgemma_work/'' @ file_name z))
                              (AList.update ''file_id'' (JStr (file_id z)) dag_conf))
                 in case trigger_dag env self w (analysis_dag_id self) dag_conf
                           (''manual__analysis_'' @ job_id) of
                      (Inr dag_run, w1) \<Rightarrow>
                        ([(''status'', JStr ''Analysis pipeline started''),
                          (''dag_id'', JStr (analysis_dag_id self)),
                          (''job_id'', dict_get dag_run ''dag_run_id''),
                          (''item_id'', JStr (item_id item)),
                          (''message'', JStr ''Check status using /api/v1/medgemma/status/{job_id}'')],
                         snd (set_trigger_metadata env w1 item (analysis_dag_id self) dag_run))
                    | (Inl e, w1) \<Rightarrow>
                        ([(''error'', JStr (''Failed to trigger pipeline: '' @ e))], w1))"


section \<open>Double-precision arithmetic of the progress computation\<close>

text \<open>
  \<open>int((done_tasks / total_tasks) * 100)\<close> is computed on Python floats, IEEE 754
  binary64: the true quotient of the two integers is rounded to the nearest double,
  ties to the even significand; so is the product with \<open>100.0\<close>; \<open>int\<close> then
  truncates toward zero. A finite double is a rational number, and the rounding is a
  function on the rationals.
\<close>

text \<open>\<open>\<lfloor>log\<^sub>2 q\<rfloor>\<close> for a positive rational, from the bit lengths of numerator and
  denominator.\<close>

definition ilog2 :: "rat \<Rightarrow> int" where
  "ilog2 q =
     (let k = bitlen (fst (quotient_of q)) - bitlen (snd (quotient_of q))
      in if 2 powi k \<le> q then k else k - 1)"

definition round_half_even :: "rat \<Rightarrow> int" where
  "round_half_even x =
     (let f = \<lfloor>x\<rfloor>; r = x - of_int f
      in if r < 1 / 2 then f
         else if 1 / 2 < r then f + 1
         else if even f then f else f + 1)"

text \<open>
  The nearest double: 53 significant bits, hence a unit in the last place of
  \<open>2 ^ (\<lfloor>log\<^sub>2 |q|\<rfloor> - 52)\<close>, and never below \<open>2 ^ -1074\<close>, the spacing of the
  subnormal numbers. A result of magnitude \<open>2 ^ 1024\<close> or more stands for an infinity.
\<close>

definition round_double :: "rat \<Rightarrow> rat" where
  "round_double q =
     (if q = 0 then 0
      else
        let e = max (ilog2 \<bar>q\<bar> - 52) (- 1074)
        in sgn q * of_int (round_half_even (\<bar>q\<bar> / 2 powi e)) * 2 powi e)"

definition is_infinite :: "rat \<Rightarrow> bool" where
  "is_infinite x = (2 ^ 1024 \<le> \<bar>x\<bar>)"

text \<open>\<open>a / b\<close> on integers raises on a zero divisor and when the quotient is too large
  for a float; \<open>x * y\<close> on floats; \<open>int(x)\<close> raises on an infinity.\<close>

definition int_true_div :: "int \<Rightarrow> int \<Rightarrow> py_error + rat" where
  "int_true_div a b =
     (if b = 0 then Inl ZeroDivisionError
      else
        let x = round_double (of_int a / of_int b)
        in if is_infinite x then Inl OverflowError else Inr x)"

definition float_mul :: "rat \<Rightarrow> rat \<Rightarrow> rat" where
  "float_mul x y = round_double (x * y)"

definition int_of_float :: "rat \<Rightarrow> py_error + int" where
  "int_of_float x =
     (if is_infinite x then Inl OverflowError
      else Inr (if 0 \<le> x then \<lfloor>x\<rfloor> else \<lceil>x\<rceil>))"

text \<open>\<open>int((done_tasks / total_tasks) * 100) if total_tasks else 0\<close>.\<close>

definition percent_of :: "nat \<Rightarrow> nat \<Rightarrow> py_error + int" where
  "percent_of done_tasks total_tasks =
     (if total_tasks = 0 then Inr 0
      else
        (case int_true_div (int done_tasks) (int total_tasks) of
           Inl e \<Rightarrow> Inl e
         | Inr x \<Rightarrow> int_of_float (float_mul x 100)))"

section \<open>Pixel normalizer (\<open>dicom_processor.py\<close>, \<open>DICOMProcessor.dicom_to_image\<close>)\<close>

text \<open>
  \<open>dicom_to_image\<close> is arithmetic on a NumPy array of floats. A floating-point format
  is given by its number of significant bits, the exponent of its least subnormal
  number and the exponent of its overflow threshold; \<open>round_float\<close> is the rounding of
  \<open>round_double\<close> for any such format.
\<close>

record float_format =
  precision :: nat
  min_exp :: int
  max_exp :: nat

definition binary32 :: float_format where
  "binary32 = \<lparr>precision = 24, min_exp = - 149, max_exp = 128\<rparr>"

definition binary64 :: float_format where
  "binary64 = \<lparr>precision = 53, min_exp = - 1074, max_exp = 1024\<rparr>"

definition ulp_exp :: "float_format \<Rightarrow> rat \<Rightarrow> int" where
  "ulp_exp fmt q = max (ilog2 \<bar>q\<bar> - (int (precision fmt) - 1)) (min_exp fmt)"

definition round_float :: "float_format \<Rightarrow> rat \<Rightarrow> rat" where
  "round_float fmt q =
     (if q = 0 then 0
      else
        let e = ulp_exp fmt q
        in sgn q * of_int (round_half_even (\<bar>q\<bar> / 2 powi e)) * 2 powi e)"

text \<open>
  An element of the array is a finite number, an infinity or a NaN. NumPy raises
  nothing on overflow or on an invalid operation: the result is an infinity or a NaN,
  and the computation goes on. The sign of a zero is not kept; it would matter only in
  a division by zero, and \<open>dicom_to_image\<close> divides only by a maximum that it has
  found greater than zero.
\<close>

datatype fval = Fin rat | PInf | NInf | NaN

definition round_to :: "float_format \<Rightarrow> rat \<Rightarrow> fval" where
  "round_to fmt q =
     (let r = round_float fmt q
      in if 2 ^ max_exp fmt \<le> r then PInf
         else if r \<le> - (2 ^ max_exp fmt) then NInf
         else Fin r)"

fun f_sgn :: "fval \<Rightarrow> int" where
  "f_sgn (Fin x) = (if x = 0 then 0 else if 0 < x then 1 else - 1)"
| "f_sgn PInf = 1"
| "f_sgn NInf = - 1"
| "f_sgn NaN = 0"

fun f_neg :: "fval \<Rightarrow> fval" where
  "f_neg (Fin x) = Fin (- x)"
| "f_neg PInf = NInf"
| "f_neg NInf = PInf"
| "f_neg NaN = NaN"

fun f_add :: "float_format \<Rightarrow> fval \<Rightarrow> fval \<Rightarrow> fval" where
  "f_add fmt (Fin x) (Fin y) = round_to fmt (x + y)"
| "f_add fmt NaN b = NaN"
| "f_add fmt a NaN = NaN"
| "f_add fmt (Fin x) b = b"
| "f_add fmt a (Fin y) = a"
| "f_add fmt a b = (if a = b then a else NaN)"

definition f_sub :: "float_format \<Rightarrow> fval \<Rightarrow> fval \<Rightarrow> fval" where
  "f_sub fmt a b = f_add fmt a (f_neg b)"

fun f_mul :: "float_format \<Rightarrow> fval \<Rightarrow> fval \<Rightarrow> fval" where
  "f_mul fmt (Fin x) (Fin y) = round_to fmt (x * y)"
| "f_mul fmt NaN b = NaN"
| "f_mul fmt a NaN = NaN"
| "f_mul fmt a b =
     (if f_sgn a * f_sgn b = 0 then NaN else if 0 < f_sgn a * f_sgn b then PInf else NInf)"

fun f_div :: "float_format \<Rightarrow> fval \<Rightarrow> fval \<Rightarrow> fval" where
  "f_div fmt (Fin x) (Fin y) =
     (if y = 0 then (if x = 0 then NaN else if 0 < x then PInf else NInf)
      else round_to fmt (x / y))"
| "f_div fmt NaN b = NaN"
| "f_div fmt a NaN = NaN"
| "f_div fmt (Fin x) b = Fin 0"
| "f_div fmt a (Fin y) = (if (0 \<le> y) = (a = PInf) then PInf else NInf)"
| "f_div fmt a b = NaN"

text \<open>\<open>a < b\<close> on floats is false when either side is a NaN.\<close>

fun f_less :: "fval \<Rightarrow> fval \<Rightarrow> bool" where
  "f_less (Fin x) (Fin y) = (x < y)"
| "f_less NaN b = False"
| "f_less a NaN = False"
| "f_less NInf b = (b \<noteq> NInf)"
| "f_less a PInf = (a \<noteq> PInf)"
| "f_less a b = False"

text \<open>
  \<open>ndarray.min()\<close> and \<open>ndarray.max()\<close> run over all elements of the array, give NaN
  as soon as one element is a NaN, and raise \<open>ValueError\<close> on an array without
  elements.
\<close>

definition minimum :: "fval \<Rightarrow> fval \<Rightarrow> fval" where
  "minimum a b = (if a = NaN \<or> b = NaN then NaN else if f_less b a then b else a)"

definition maximum :: "fval \<Rightarrow> fval \<Rightarrow> fval" where
  "maximum a b = (if a = NaN \<or> b = NaN then NaN else if f_less a b then b else a)"

fun array_min :: "fval list \<Rightarrow> py_error + fval" where
  "array_min [] = Inl ValueError"
| "array_min (x # xs) = Inr (fold (\<lambda>y acc. minimum acc y) xs x)"

fun array_max :: "fval list \<Rightarrow> py_error + fval" where
  "array_max [] = Inl ValueError"
| "array_max (x # xs) = Inr (fold (\<lambda>y acc. maximum acc y) xs x)"

text \<open>
  \<open>astype(np.uint8)\<close> truncates toward zero a value whose truncation is a byte. On
  any other value, an infinity or a NaN, the conversion is undefined in C and the byte
  it leaves depends on the platform: \<open>wild\<close> stands for what the platform does.
\<close>

definition astype_uint8 :: "(fval \<Rightarrow> nat) \<Rightarrow> fval \<Rightarrow> nat" where
  "astype_uint8 wild v =
     (case v of
        Fin x \<Rightarrow> if - 1 < x \<and> x < 256 then (if 0 \<le> x then nat \<lfloor>x\<rfloor> else 0)
                 else wild v mod 256
      | _ \<Rightarrow> wild v mod 256)"

text \<open>
  A slice is its pixel array, a grid of stored integers held as a list of rows, with
  its \<open>RescaleSlope\<close> and \<open>RescaleIntercept\<close>, finite Python floats (1.0 and 0.0
  when the dataset has none).

  \<open>pixel_array.astype(np.float32)\<close>, then \<open>pixel_array * slope + intercept\<close>. The
  element type of the rescaled array is float32 or float64, depending on the version
  of NumPy and on the type of the two values (a Python float, or a float of pydicom):
  \<open>fmt\<close> is that type. The two values are converted to it, and each of the two
  operations rounds.
\<close>

definition rescaled_grid :: "float_format \<Rightarrow> int list list \<Rightarrow> rat \<Rightarrow> rat \<Rightarrow> fval list list" where
  "rescaled_grid fmt pixels slope intercept =
     map (map (\<lambda>p. f_add fmt (f_mul fmt (round_to binary32 (of_int p)) (round_to fmt slope))
                               (round_to fmt intercept)))
         pixels"

text \<open>\<open>pixel_array - pixel_array.min()\<close>.\<close>

definition shifted_grid :: "float_format \<Rightarrow> fval list list \<Rightarrow> py_error + fval list list" where
  "shifted_grid fmt grid =
     (case array_min (concat grid) of
        Inl e \<Rightarrow> Inl e
      | Inr lo \<Rightarrow> Inr (map (map (\<lambda>x. f_sub fmt x lo)) grid))"

text \<open>\<open>if pixel_array.max() > 0: pixel_array = (pixel_array / pixel_array.max()) * 255\<close>.\<close>

definition stretched_grid :: "float_format \<Rightarrow> fval list list \<Rightarrow> py_error + fval list list" where
  "stretched_grid fmt grid =
     (case array_max (concat grid) of
        Inl e \<Rightarrow> Inl e
      | Inr hi \<Rightarrow>
          Inr (if f_less (Fin 0) hi
               then map (map (\<lambda>x. f_mul fmt (f_div fmt x hi) (round_to fmt 255))) grid
               else grid))"

text \<open>
  The image that \<open>Image.fromarray\<close> builds has the bytes of the converted array as
  its pixels; the function returns them. Saving the image to \<open>output_path\<close> changes
  nothing of it.
\<close>

definition dicom_to_image ::
  "float_format \<Rightarrow> (fval \<Rightarrow> nat) \<Rightarrow> int list list \<Rightarrow> rat \<Rightarrow> rat \<Rightarrow> py_error + nat list list" where
  "dicom_to_image fmt wild pixels slope intercept =
     (case shifted_grid fmt (rescaled_grid fmt pixels slope intercept) of
        Inl e \<Rightarrow> Inl e
      | Inr shifted \<Rightarrow>
          (case stretched_grid fmt shifted of
             Inl e \<Rightarrow> Inl e
           | Inr stretched \<Rightarrow> Inr (map (map (astype_uint8 wild)) stretched)))"

text \<open>
  A grid without an infinity or a NaN; a slice whose rescale and shift overflow
  nowhere; a grid whose elements are all the same.
\<close>

definition finite_grid :: "fval list list \<Rightarrow> bool" where
  "finite_grid grid = list_all (\<lambda>v. case v of Fin x \<Rightarrow> True | _ \<Rightarrow> False) (concat grid)"

definition finite_shift :: "float_format \<Rightarrow> int list list \<Rightarrow> rat \<Rightarrow> rat \<Rightarrow> bool" where
  "finite_shift fmt pixels slope intercept =
     (case shifted_grid fmt (rescaled_grid fmt pixels slope intercept) of
        Inl e \<Rightarrow> False
      | Inr shifted \<Rightarrow> finite_grid shifted)"

definition constant_grid :: "'a list list \<Rightarrow> bool" where
  "constant_grid grid = list_all (\<lambda>v. v = hd (concat grid)) (concat grid)"


section \<open>Status reconciler: \<open>get_zip_job_status\<close> and \<open>get_item_pipeline_status\<close>\<close>

definition done_states :: "jval list" where
  "done_states = [JStr ''success'', JStr ''failed'', JStr ''skipped'', JStr ''upstream_failed'']"

text \<open>
  What \<open>len(task_instances)\<close> and the iteration over it see: the elements of a list,
  the characters of a string, the keys of a dictionary; anything else raises
  \<open>TypeError\<close>.
\<close>

definition task_elements :: "jval \<Rightarrow> py_error + jval list" where
  "task_elements v =
     (case v of
        JList ts \<Rightarrow> Inr ts
      | JStr s \<Rightarrow> Inr (map (\<lambda>c. JStr [c]) s)
      | JDict d \<Rightarrow> Inr (map (\<lambda>kv. JStr (fst kv)) d)
      | _ \<Rightarrow> Inl TypeError)"

text \<open>
  \<open>t.get('state') in done_states\<close>: \<open>AttributeError\<close> when \<open>t\<close> is no dictionary,
  \<open>TypeError\<close> when the state is a list or a dictionary (unhashable).
\<close>

fun task_done :: "jval \<Rightarrow> py_error + bool" where
  "task_done (JDict t) =
     (case dict_get t ''state'' of
        JList _ \<Rightarrow> Inl TypeError
      | JDict _ \<Rightarrow> Inl TypeError
      | s \<Rightarrow> Inr (s \<in> set done_states))"
| "task_done _ = Inl AttributeError"

text \<open>\<open>sum(1 for t in task_instances if t.get('state') in done_states)\<close>.\<close>

fun count_done :: "jval list \<Rightarrow> py_error + nat" where
  "count_done [] = Inr 0"
| "count_done (t # ts) =
     (case task_done t of
        Inl e \<Rightarrow> Inl e
      | Inr b \<Rightarrow>
          (case count_done ts of
             Inl e \<Rightarrow> Inl e
           | Inr n \<Rightarrow> Inr ((if b then 1 else 0) + n)))"

text \<open>The body of the inner \<open>try\<close> of \<open>get_zip_job_status\<close> after the task query
  has answered: the progress dictionary, or the exception raised on the way.\<close>

definition task_progress :: "jdict \<Rightarrow> jval \<Rightarrow> py_error + jdict" where
  "task_progress task_data state =
     (case task_elements (dict_get_default task_data ''task_instances'' (JList [])) of
        Inl e \<Rightarrow> Inl e
      | Inr task_instances \<Rightarrow>
          let total_tasks = length task_instances
          in (case count_done task_instances of
                Inl e \<Rightarrow> Inl e
              | Inr done_tasks \<Rightarrow>
                  (case percent_of done_tasks total_tasks of
                     Inl e \<Rightarrow> Inl e
                   | Inr percent \<Rightarrow>
                       Inr [(''percent'', JInt (if state = JStr ''success'' then 100 else percent)),
                            (''done_tasks'', JInt (int done_tasks)),
                            (''total_tasks'', JInt (int total_tasks))])))"

text \<open>The progress the \<open>except\<close> branch leaves: the initial dictionary, with the
  percentage set to 100 for a successful run.\<close>

definition fallback_progress :: "jval \<Rightarrow> jdict" where
  "fallback_progress state =
     [(''percent'', JInt (if state = JStr ''success'' then 100 else 0)),
      (''done_tasks'', JInt 0),
      (''total_tasks'', JInt 0)]"

definition get_zip_job_status ::
  "environment \<Rightarrow> resource \<Rightarrow> world \<Rightarrow> string \<Rightarrow> jdict \<times> world" where
  "get_zip_job_status env self w job_id =
     (case get_dag_run_status env self w (zip_dag_id self) job_id of
        (Inl e, w1) \<Rightarrow> ([(''error'', JStr (''Failed to get ZIP job status: '' @ e))], w1)
      | (Inr dag_run_status, w1) \<Rightarrow>
          let state = dict_get_default dag_run_status ''state'' (JStr ''unknown'')
          in (case get_dag_run_tasks env self w1 (zip_dag_id self) job_id of
                (tasks, w2) \<Rightarrow>
                  let progress =
                        (case tasks of
                           Inl e \<Rightarrow> fallback_progress state
                         | Inr task_data \<Rightarrow>
                             (case task_progress task_data state of
                                Inl e \<Rightarrow> fallback_progress state
                              | Inr p \<Rightarrow> p));
                      source_item =
                        findOne w2 (\<lambda>i. map_of (item_meta i) ''airflow_job_id'' = Some (JStr job_id));
                      w3 =
                        (case source_item of
                           None \<Rightarrow> w2
                         | Some it \<Rightarrow>
                             let update_meta = [(''analysis_status'', state)];
                                 update_meta =
                                   (if state = JStr ''success''
                                    then AList.update ''processed_dicom_ready'' (JBool True) update_meta
                                    else update_meta)
                             in snd (setMetadata w2 it update_meta))
                  in ([(''job_id'', JStr job_id),
                       (''dag_id'', JStr (zip_dag_id self)),
                       (''status'', state),
                       (''start_date'', dict_get dag_run_status ''start_date''),
                       (''end_date'', dict_get dag_run_status ''end_date''),
                       (''dag_run_id'', dict_get dag_run_status ''dag_run_id''),
                       (''progress'', JDict progress)],
                      w3)))"

definition get_item_pipeline_status ::
  "environment \<Rightarrow> resource \<Rightarrow> world \<Rightarrow> item_doc \<Rightarrow> jdict \<times> world" where
  "get_item_pipeline_status env self w item =
     (let metadata = item_meta item;
          dag_id = dict_get metadata ''airflow_dag_id'';
          dag_run_id = dict_get metadata ''airflow_job_id''
      in if \<not> truthy dag_id \<or> \<not> truthy dag_run_id
         then ([(''item_id'', JStr (item_id item)),
                (''status'', dict_get_default metadata ''analysis_status'' (JStr ''not_started'')),
                (''message'', JStr ''No Airflow run metadata found on item'')],
               w)
         else
           (case get_dag_run_status env self w (py_str (py_repr env) dag_id)
                   (py_str (py_repr env) dag_run_id) of
              (Inr dag_run_status, w1) \<Rightarrow>
                let state = dict_get_default dag_run_status ''state'' (JStr ''unknown'')
                in ([(''item_id'', JStr (item_id item)),
                     (''job_id'', dag_run_id),
                     (''dag_id'', dag_id),
                     (''status'', state),
                     (''start_date'', dict_get dag_run_status ''start_date''),
                     (''end_date'', dict_get dag_run_status ''end_date'')],
                    snd (setMetadata w1 item [(''analysis_status'', state)]))
            | (Inl e, w1) \<Rightarrow>
                ([(''item_id'', JStr (item_id item)),
                  (''job_id'', dag_run_id),
                  (''dag_id'', dag_id),
                  (''status'', dict_get_default metadata ''analysis_status'' (JStr ''unknown'')),
                  (''error'', JStr (''Status refresh failed: '' @ e))],
                 w1)))"


section \<open>A concrete deployment, for the scenarios\<close>

text \<open>
  The resource as \<open>__init__\<close> builds it when none of its environment variables is set,
  a request of user \<open>alice\<close>, one item with one ZIP file, and two behaviours of
  Airflow: unreachable, and answering every request with a given JSON object.
\<close>

definition default_resource :: resource where
  "default_resource =
     \<lparr>api_base = ''http://localhost:8080/api/v2'',
      analysis_dag_id = ''medgemma_analysis_pipeline'',
      zip_dag_id = ''girder_zip_pipeline'',
      processed_item_name = ''Processed Dicom''\<rparr>"

definition request_env ::
  "(string \<Rightarrow> jdict \<Rightarrow> string + jdict) \<Rightarrow> (string \<Rightarrow> string + jdict) \<Rightarrow> environment" where
  "request_env post get =
     \<lparr>post_reply = post,
      get_reply = get,
      os_environ = [(''HUGGINGFACE_TOKEN'', ''hf_abc'')],
      current_user = Some [(''login'', JStr ''alice'')],
      current_token = TokenStr ''girder-token-1'',
      request_headers = Some [],
      uuid4 = ''1b4e28ba'',
      utc_now = ''2025-01-01T00:00:00+00:00'',
      path_stem = takeWhile (\<lambda>c. c \<noteq> CHR ''.''),
      py_repr = (\<lambda>v. ''?'')\<rparr>"

definition airflow_down :: environment where
  "airflow_down =
     request_env (\<lambda>url body. Inl ''connection refused'') (\<lambda>url. Inl ''connection refused'')"

definition airflow_answers :: "jdict \<Rightarrow> environment" where
  "airflow_answers answer = request_env (\<lambda>url body. Inr answer) (\<lambda>url. Inr answer)"

definition study_item :: "jdict \<Rightarrow> item_doc" where
  "study_item m =
     \<lparr>item_id = ''item1'', item_folderId = ''folder1'', item_name = ''study'', item_meta = m\<rparr>"

definition study_zip :: file_doc where
  "study_zip =
     \<lparr>file_id = ''file1'', file_itemId = ''item1'', file_name = ''scan.zip'', file_created = 10\<rparr>"

definition store_of :: "item_doc list \<Rightarrow> file_doc list \<Rightarrow> world" where
  "store_of its fs = \<lparr>items = its, files = fs, http_log = []\<rparr>"

text \<open>The metadata of an item whose ZIP run was triggered and is running.\<close>

definition running_meta :: jdict where
  "running_meta =
     [(''airflow_dag_id'', JStr ''girder_zip_pipeline''),
      (''airflow_job_id'', JStr ''manual__girder_77''),
      (''analysis_status'', JStr ''running'')]"



text \<open>
  An item holding one DICOM file and no ZIP file, what Airflow answers when its analysis
  run is triggered, and the metadata \<open>analyze_item\<close> then leaves on the item.
\<close>

definition study_dcm :: file_doc where
  "study_dcm =
     \<lparr>file_id = ''file2'', file_itemId = ''item1'', file_name = ''slice001.dcm'',
      file_created = 11\<rparr>"

definition analysis_queued :: jdict where
  "analysis_queued =
     [(''dag_run_id'', JStr ''manual__analysis_1b4e28ba''), (''state'', JStr ''queued'')]"

definition queued_meta :: jdict where
  "queued_meta =
     [(''airflow_dag_id'', JStr ''medgemma_analysis_pipeline''),
      (''airflow_job_id'', JStr ''manual__analysis_1b4e28ba''),
      (''analysis_status'', JStr ''queued''),
      (''triggered_by'', JStr ''alice''),
      (''triggered_at'', JStr ''2025-01-01T00:00:00+00:00'')]"

section \<open>Properties of the slice selector\<close>

subsection \<open>The collecting loop\<close>

lemma collect_indices_length:
  "int (length acc) \<le> n \<Longrightarrow> distinct r \<Longrightarrow>
   int (length (collect_indices n acc r)) =
     min n (int (length acc) + int (length (filter (\<lambda>i. i \<notin> set acc) r)))"
proof (induction r arbitrary: acc)
  case Nil
  then show ?case by simp
next
  case (Cons i r)
  show ?case
  proof (cases "i \<notin> set acc \<and> int (length acc) < n")
    case True
    have same: "filter (\<lambda>j. j \<notin> set (acc @ [i])) r = filter (\<lambda>j. j \<notin> set acc) r"
      using Cons.prems(2) by (auto intro: filter_cong)
    have "int (length (collect_indices n (acc @ [i]) r)) =
          min n (int (length (acc @ [i])) + int (length (filter (\<lambda>j. j \<notin> set (acc @ [i])) r)))"
      using True Cons.prems by (intro Cons.IH) auto
    with True same show ?thesis by simp
  next
    case False
    have "int (length (collect_indices n acc r)) =
          min n (int (length acc) + int (length (filter (\<lambda>j. j \<notin> set acc) r)))"
      using Cons.prems by (intro Cons.IH) auto
    with False Cons.prems(1) show ?thesis by auto
  qed
qed

lemma collect_indices_keeps: "set acc \<subseteq> set (collect_indices n acc r)"
proof (induction r arbitrary: acc)
  case Nil
  show ?case by simp
next
  case (Cons i r)
  have "set acc \<subseteq> set (if i \<notin> set acc \<and> int (length acc) < n then acc @ [i] else acc)"
    by auto
  also have "\<dots> \<subseteq> set (collect_indices n (if i \<notin> set acc \<and> int (length acc) < n then acc @ [i] else acc) r)"
    by (rule Cons.IH)
  finally show ?case by simp
qed

lemma collect_indices_subset: "set (collect_indices n acc r) \<subseteq> set acc \<union> set r"
proof (induction r arbitrary: acc)
  case Nil
  show ?case by simp
next
  case (Cons i r)
  have "set (collect_indices n (if i \<notin> set acc \<and> int (length acc) < n then acc @ [i] else acc) r)
        \<subseteq> set (if i \<notin> set acc \<and> int (length acc) < n then acc @ [i] else acc) \<union> set r"
    by (rule Cons.IH)
  also have "\<dots> \<subseteq> set acc \<union> set (i # r)"
    by auto
  finally show ?case by simp
qed

lemma collect_indices_distinct: "distinct acc \<Longrightarrow> distinct (collect_indices n acc r)"
  by (induction r arbitrary: acc) auto

lemma index_all_in_range:
  "\<forall>i\<in>set idxs. 0 \<le> i \<and> i < int (length xs) \<Longrightarrow>
   index_all xs idxs = Inr (map (\<lambda>i. xs ! nat i) idxs)"
  by (induction idxs) (auto simp: py_index_def)

lemma length_filter_neq:
  "distinct xs \<Longrightarrow> length (filter (\<lambda>i. i \<noteq> a) xs) = length xs - (if a \<in> set xs then 1 else 0)"
proof (induction xs)
  case Nil
  show ?case by simp
next
  case (Cons x xs)
  show ?case
  proof (cases "a \<in> set xs")
    case True
    then have "0 < length xs" by (rule length_pos_if_in_set)
    with Cons True show ?thesis by auto
  next
    case False
    with Cons show ?thesis by auto
  qed
qed

subsection \<open>Integer division and the stride walk\<close>

lemma int_le_div_iff:
  fixes a b k :: int
  assumes "0 < b"
  shows "k \<le> a div b \<longleftrightarrow> k * b \<le> a"
proof
  assume "k \<le> a div b"
  then have "k * b \<le> (a div b) * b"
    using assms by (simp add: mult_right_mono)
  also have "\<dots> \<le> a"
    using assms by (metis div_mult_mod_eq le_add_same_cancel1 pos_mod_sign)
  finally show "k * b \<le> a" .
next
  assume "k * b \<le> a"
  then have "(k * b) div b \<le> a div b"
    using assms by (rule zdiv_mono1)
  then show "k \<le> a div b"
    using assms by simp
qed

lemma ceil_div_less_iff:
  fixes stop step :: int
  assumes "0 < step"
  shows "int k < (stop + step - 1) div step \<longleftrightarrow> int k * step < stop"
proof -
  have "int k < (stop + step - 1) div step \<longleftrightarrow> int k + 1 \<le> (stop + step - 1) div step"
    by auto
  also have "\<dots> \<longleftrightarrow> (int k + 1) * step \<le> stop + step - 1"
    using assms by (rule int_le_div_iff)
  also have "\<dots> \<longleftrightarrow> int k * step < stop"
    by (auto simp: algebra_simps)
  finally show ?thesis .
qed

lemma py_range_pos:
  assumes "0 < step"
  shows "py_range stop step = Inr (map (\<lambda>k. int k * step) [0 ..< nat ((stop + step - 1) div step)])"
  using assms by (simp add: py_range_def)

lemma range_distinct:
  assumes "0 < (step::int)"
  shows "distinct (map (\<lambda>k. int k * step) [0 ..< n])"
proof -
  have "inj_on (\<lambda>k. int k * step) (set [0 ..< n])"
    using assms by (auto simp: inj_on_def)
  then show ?thesis by (simp add: distinct_map)
qed

lemma range_mem:
  assumes "0 < (step::int)"
  shows "i \<in> set (map (\<lambda>k. int k * step) [0 ..< nat ((stop + step - 1) div step)])
         \<longleftrightarrow> 0 \<le> i \<and> i < stop \<and> i mod step = 0"
proof
  assume "i \<in> set (map (\<lambda>k. int k * step) [0 ..< nat ((stop + step - 1) div step)])"
  then have "i \<in> (\<lambda>k. int k * step) ` {0 ..< nat ((stop + step - 1) div step)}"
    by (simp only: set_map set_upt)
  then obtain k where k: "i = int k * step" "k < nat ((stop + step - 1) div step)"
    using atLeastLessThan_iff by blast
  from k(2) have "int k < (stop + step - 1) div step" by simp
  then have "int k * step < stop" using assms by (simp add: ceil_div_less_iff)
  with k(1) assms show "0 \<le> i \<and> i < stop \<and> i mod step = 0" by simp
next
  assume a: "0 \<le> i \<and> i < stop \<and> i mod step = 0"
  define k where "k = nat (i div step)"
  have "0 \<le> i div step" using a assms by (simp add: pos_imp_zdiv_nonneg_iff)
  then have ik: "int k = i div step" by (simp add: k_def)
  have i: "i = int k * step" using a ik by auto
  then have "int k * step < stop" using a by simp
  then have "int k < (stop + step - 1) div step" using assms by (simp add: ceil_div_less_iff)
  then have "k < nat ((stop + step - 1) div step)" by simp
  then have "int k * step \<in> (\<lambda>k. int k * step) ` {0 ..< nat ((stop + step - 1) div step)}"
    by (intro imageI) simp
  with i show "i \<in> set (map (\<lambda>k. int k * step) [0 ..< nat ((stop + step - 1) div step)])"
    by (simp only: set_map set_upt)
qed

lemma stride_count:
  fixes L m :: int
  assumes "1 \<le> m" "m \<le> L"
  defines "step \<equiv> L div m"
  defines "K \<equiv> (L + step - 1) div step"
  shows "0 < step" "m \<le> K" "L mod m \<noteq> 0 \<Longrightarrow> m + 1 \<le> K" "L mod m = 0 \<Longrightarrow> K = m"
proof -
  show sp: "0 < step" using assms by (simp add: pos_imp_zdiv_pos_iff)
  have ms: "m * step \<le> L" unfolding step_def using assms(1)
    by (metis div_mult_mod_eq le_add_same_cancel1 mult.commute pos_mod_sign zero_less_one_class.zero_less_one order_less_le_trans)
  then have "m * step \<le> L + step - 1" using sp by simp
  then show "m \<le> K" unfolding K_def using sp by (simp add: int_le_div_iff)
  {
    assume "L mod m \<noteq> 0"
    moreover have "0 \<le> L mod m" using assms(1) by (intro pos_mod_sign) simp
    ultimately have "0 < L mod m" by simp
    then have "m * step < L" unfolding step_def
      by (metis add.commute less_add_same_cancel2 mult_div_mod_eq)
    then have "(m + 1) * step \<le> L + step - 1" by (simp add: algebra_simps)
    then show "m + 1 \<le> K" unfolding K_def using sp by (simp add: int_le_div_iff)
  }
  {
    assume "L mod m = 0"
    then have eq: "L = m * step" unfolding step_def by auto
    have "\<not> (m + 1 \<le> K)"
    proof
      assume "m + 1 \<le> K"
      then have "(m + 1) * step \<le> L + step - 1"
        unfolding K_def using sp by (simp add: int_le_div_iff)
      with eq show False by (simp add: algebra_simps)
    qed
    with \<open>m \<le> K\<close> show "K = m" by simp
  }
qed

lemma midpoint_on_stride_iff:
  fixes L m :: int
  assumes "1 \<le> m" "m + 1 < L" "L mod m = 0"
  shows "(L div 2) mod (L div m) = 0 \<longleftrightarrow> even m"
proof -
  define step where "step = L div m"
  have eq: "L = m * step" unfolding step_def using assms(3) by auto
  have "1 < step"
  proof (rule ccontr)
    assume "\<not> 1 < step"
    then have "step \<le> 1" by simp
    then have "m * step \<le> m * 1" using assms(1) by (intro mult_left_mono) auto
    with eq assms(2) show False by simp
  qed
  show ?thesis
  proof (cases "even m")
    case True
    then obtain j where "m = 2 * j" by (auto elim: evenE)
    then have "L div 2 = j * step" using eq by simp
    then show ?thesis using True by (simp add: step_def)
  next
    case False
    then obtain j where "m = 2 * j + 1" by (auto elim: oddE)
    then have "L = 2 * (j * step) + step" using eq by (simp add: algebra_simps)
    then have "L div 2 = j * step + step div 2" by simp
    then have "(L div 2) mod step = (step div 2) mod step" by simp
    also have "\<dots> = step div 2" using \<open>1 < step\<close> by (intro mod_pos_pos_trivial) auto
    also have "\<dots> \<noteq> 0" using \<open>1 < step\<close> by auto
    finally show ?thesis using False by (simp add: step_def)
  qed
qed

subsection \<open>The selected indices of a series longer than the target count\<close>

lemma key_slice_indices_long:
  fixes N L :: int
  assumes N: "2 \<le> N" and L: "N < L"
  shows "\<exists>idxs. key_slice_indices N L = Inr idxs
           \<and> sorted idxs \<and> distinct idxs
           \<and> L div 2 \<in> set idxs
           \<and> (\<forall>i\<in>set idxs. 0 \<le> i \<and> i < L)
           \<and> int (length idxs) = (if L mod (N - 1) = 0 \<and> even (N - 1) then N - 1 else N)"
proof -
  define m where "m = N - 1"
  define step where "step = L div m"
  define K where "K = (L + step - 1) div step"
  define r where "r = map (\<lambda>k. int k * step) [0 ..< nat K]"
  define mid where "mid = L div 2"
  define idxs where "idxs = collect_indices N [mid] r"
  have m: "1 \<le> m" "m \<le> L" "m + 1 < L" using N L by (simp_all add: m_def)
  have sp: "0 < step" unfolding step_def using m(1,2) by (rule stride_count(1))
  have Km: "m \<le> K" unfolding K_def step_def using m(1,2) by (rule stride_count(2))
  have mid_range: "0 \<le> mid" "mid < L" using N L by (simp_all add: mid_def)
  have r_mem: "i \<in> set r \<longleftrightarrow> 0 \<le> i \<and> i < L \<and> i mod step = 0" for i
    unfolding r_def K_def using sp by (rule range_mem)
  have r_dist: "distinct r" unfolding r_def using sp by (rule range_distinct)
  have ks: "key_slice_indices N L = Inr (sort idxs)"
    using N sp by (simp add: key_slice_indices_def py_range_pos m_def step_def K_def r_def
        mid_def idxs_def Let_def)
  have mid_in: "mid \<in> set idxs"
    using collect_indices_keeps [of "[mid]" N r] by (simp add: idxs_def)
  have sub: "set idxs \<subseteq> {mid} \<union> set r"
    using collect_indices_subset [of N "[mid]" r] by (simp add: idxs_def)
  have inr: "\<forall>i\<in>set idxs. 0 \<le> i \<and> i < L"
    using sub mid_range r_mem by auto
  have dist: "distinct idxs"
    unfolding idxs_def by (rule collect_indices_distinct) simp
  have "int (length idxs) = min N (int (length [mid]) + int (length (filter (\<lambda>i. i \<notin> set [mid]) r)))"
    unfolding idxs_def using N r_dist by (intro collect_indices_length) auto
  also have "filter (\<lambda>i. i \<notin> set [mid]) r = filter (\<lambda>i. i \<noteq> mid) r" by simp
  also have "length (filter (\<lambda>i. i \<noteq> mid) r) = length r - (if mid \<in> set r then 1 else 0)"
    using r_dist by (rule length_filter_neq)
  finally have len: "int (length idxs) =
      min N (1 + int (length r - (if mid \<in> set r then 1 else 0)))" by simp
  have lr: "int (length r) = K" using Km m(1) by (simp add: r_def)
  have mid_r: "mid \<in> set r \<longleftrightarrow> mid mod step = 0" using r_mem mid_range by simp
  have count: "int (length idxs) = (if L mod m = 0 \<and> even m then m else N)"
  proof (cases "L mod m = 0")
    case True
    have "K = m" unfolding K_def step_def using m(1,2) True by (rule stride_count(4))
    with lr have lrm: "int (length r) = m" by simp
    have "mid mod step = 0 \<longleftrightarrow> even m"
      unfolding mid_def step_def using m(1,3) True by (rule midpoint_on_stride_iff)
    with mid_r have me: "mid \<in> set r \<longleftrightarrow> even m" by simp
    show ?thesis
    proof (cases "even m")
      case e: True
      with me have "mid \<in> set r" by simp
      with len lrm m(1) have "int (length idxs) = min N (1 + (m - 1))"
        by (simp add: of_nat_diff)
      with True e show ?thesis by (simp add: m_def)
    next
      case o: False
      with me have "mid \<notin> set r" by simp
      with len lrm have "int (length idxs) = min N (1 + m)" by simp
      with o show ?thesis by (simp add: m_def)
    qed
  next
    case False
    have "m + 1 \<le> K" unfolding K_def step_def using m(1,2) False by (rule stride_count(3))
    with lr have "m + 1 \<le> int (length r)" by simp
    then have "m \<le> int (length r - (if mid \<in> set r then 1 else 0))" by auto
    with len have "int (length idxs) = N" by (simp add: m_def)
    with False show ?thesis by simp
  qed
  show ?thesis
  proof (intro exI conjI)
    show "key_slice_indices N L = Inr (sort idxs)" by (rule ks)
    show "sorted (sort idxs)" by simp
    show "distinct (sort idxs)" using dist by simp
    show "L div 2 \<in> set (sort idxs)" using mid_in by (simp add: mid_def)
    show "\<forall>i\<in>set (sort idxs). 0 \<le> i \<and> i < L" using inr by simp
    show "int (length (sort idxs)) = (if L mod (N - 1) = 0 \<and> even (N - 1) then N - 1 else N)"
      using count by (simp add: m_def)
  qed
qed

lemma extract_key_slices_long:
  fixes N :: int
  assumes "2 \<le> N" and "N < int (length xs)"
  shows "\<exists>idxs. key_slice_indices N (int (length xs)) = Inr idxs
           \<and> extract_key_slices N xs = Inr (map (\<lambda>i. xs ! nat i) idxs)
           \<and> int (length xs) div 2 \<in> set idxs
           \<and> int (length idxs) =
               (if int (length xs) mod (N - 1) = 0 \<and> even (N - 1) then N - 1 else N)"
proof -
  from key_slice_indices_long [OF assms] obtain idxs where
    k: "key_slice_indices N (int (length xs)) = Inr idxs"
    and mid: "int (length xs) div 2 \<in> set idxs"
    and inr: "\<forall>i\<in>set idxs. 0 \<le> i \<and> i < int (length xs)"
    and len: "int (length idxs) =
               (if int (length xs) mod (N - 1) = 0 \<and> even (N - 1) then N - 1 else N)"
    by blast
  have "extract_key_slices N xs = index_all xs idxs"
    using assms(2) k by (simp add: extract_key_slices_def)
  also have "\<dots> = Inr (map (\<lambda>i. xs ! nat i) idxs)"
    using inr by (rule index_all_in_range)
  finally show ?thesis using k mid len by blast
qed

lemma extract_key_slices_short:
  "int (length xs) \<le> N \<Longrightarrow> extract_key_slices N xs = Inr xs"
  by (simp add: extract_key_slices_def)

section \<open>Claims about the slice selector\<close>

text \<open>
  Claim C2, as stated, at a series of 12 slices and a target count of 5: the stride is
  \<open>12 // 4 = 3\<close>, the walk visits 0, 3, 6, 9, the midpoint 6 is one of them, and
  the selector returns 4 slices, not \<open>min 12 5 = 5\<close>.
\<close>

theorem extract_key_slices_underfill:
  "extract_key_slices 5 [0, 1, 2, 3, 4, 5, 6, 7, 8, 9, 10, 11 :: nat] = Inr [0, 3, 6, 9]
   \<and> length [0, 3, 6, 9 :: nat] \<noteq> min (length [0, 1, 2, 3, 4, 5, 6, 7, 8, 9, 10, 11 :: nat]) 5"
  by (simp add: extract_key_slices_def key_slice_indices_def py_range_def py_index_def upt_rec)

text \<open>
  Claim C2, amended: for every target count \<open>N \<ge> 2\<close> and every series of length
  \<open>L\<close> the selector returns a list and raises nothing; the list has \<open>L\<close> slices when
  \<open>L \<le> N\<close>, \<open>N - 1\<close> slices when \<open>L > N\<close>, \<open>N - 1\<close> divides \<open>L\<close> and
  \<open>N - 1\<close> is even (the midpoint is then one of the stride positions), and \<open>N\<close>
  slices in every other case; so it never has more than \<open>min L N\<close> slices.
\<close>

theorem extract_key_slices_count:
  fixes N :: int
  assumes "2 \<le> N"
  shows "\<exists>ys. extract_key_slices N xs = Inr ys
           \<and> int (length ys) =
               (if int (length xs) \<le> N then int (length xs)
                else if int (length xs) mod (N - 1) = 0 \<and> even (N - 1) then N - 1
                else N)
           \<and> int (length ys) \<le> min (int (length xs)) N"
proof (cases "int (length xs) \<le> N")
  case True
  then show ?thesis by (simp add: extract_key_slices_short)
next
  case False
  then have "N < int (length xs)" by simp
  from extract_key_slices_long [OF assms this] obtain idxs where
    "extract_key_slices N xs = Inr (map (\<lambda>i. xs ! nat i) idxs)"
    "int (length idxs) =
       (if int (length xs) mod (N - 1) = 0 \<and> even (N - 1) then N - 1 else N)"
    by blast
  with False show ?thesis by auto
qed

theorem extract_key_slices_count_witness:
  "\<exists>ys. extract_key_slices 5 [0, 1, 2, 3, 4, 5, 6, 7, 8, 9, 10, 11 :: nat] = Inr ys
        \<and> int (length ys) = 4 \<and> int (length ys) \<le> 5"
  using extract_key_slices_count [of 5 "[0, 1, 2, 3, 4, 5, 6, 7, 8, 9, 10, 11 :: nat]"]
  by simp

text \<open>
  Claim C5 at a target count of 1 and a series of two slices: the series is longer than
  the target count, the stride is \<open>total // (num_slices - 1) = 2 // 0\<close>, and the
  selector raises \<open>ZeroDivisionError\<close> where the claim has it return the midpoint slice.
  For \<open>N \<ge> 2\<close> the claim holds: see \<open>extract_key_slices_short\<close> and
  \<open>extract_key_slices_long\<close>.
\<close>

theorem extract_key_slices_one_of_two:
  "extract_key_slices 1 [10, 20 :: nat] = Inl ZeroDivisionError"
  by (simp add: extract_key_slices_def key_slice_indices_def)

text \<open>
  Claim C9: with a target count of 1, every series of at least two slices makes the
  selector raise \<open>ZeroDivisionError\<close> in the stride computation; no slice is returned.
\<close>

theorem extract_key_slices_single_raises:
  "1 < length xs \<Longrightarrow> extract_key_slices 1 xs = Inl ZeroDivisionError"
  by (simp add: extract_key_slices_def key_slice_indices_def)

theorem extract_key_slices_single_raises_witness:
  "1 < length [7, 8, 9 :: nat] \<and> extract_key_slices 1 [7, 8, 9 :: nat] = Inl ZeroDivisionError"
  using extract_key_slices_single_raises [of "[7, 8, 9 :: nat]"] by simp


section \<open>Properties of the orchestrator and the reconciler\<close>

lemmas fixture_defs =
  default_resource_def request_env_def airflow_down_def airflow_answers_def
  study_item_def study_zip_def store_of_def running_meta_def

lemmas helper_defs =
  latest_zip_file_def childFiles_def dict_get_def dict_get_default_def dict_update_def
  endswith_def py_lower_def lower_char_def py_strip_def is_space_def token_value_def
  getenv_default_def getenv_def param_or_def default_output_item_name_def
  already_processed_item_def findOne_def py_or_def py_str_def
  trigger_dag_def get_dag_run_status_def get_dag_run_tasks_def
  set_trigger_metadata_def setMetadata_def save_item_def Let_def

subsection \<open>What the store operations leave alone\<close>

lemma save_item_frame [simp]:
  "files (save_item w it) = files w" "http_log (save_item w it) = http_log w"
  by (simp_all add: save_item_def)

lemma setMetadata_frame [simp]:
  "files (snd (setMetadata w it md)) = files w"
  "http_log (snd (setMetadata w it md)) = http_log w"
  by (simp_all add: setMetadata_def Let_def)

lemma set_trigger_metadata_frame [simp]:
  "files (snd (set_trigger_metadata env w it d run)) = files w"
  "http_log (snd (set_trigger_metadata env w it d run)) = http_log w"
  by (simp_all add: set_trigger_metadata_def Let_def)

text \<open>Writing one field: that field gets the value, every other field stays.\<close>

lemma single_update_meta:
  "\<exists>m'. snd (setMetadata w it [(k, v)]) = save_item w (it\<lparr>item_meta := m'\<rparr>)
        \<and> dict_get m' k = v
        \<and> (\<forall>k'. k' \<noteq> k \<longrightarrow> map_of m' k' = map_of (item_meta it) k')"
proof (cases "v = JNone")
  case True
  then show ?thesis
    by (intro exI [of _ "AList.delete k (AList.update k v (item_meta it))"])
       (simp add: setMetadata_def Let_def dict_update_def dict_get_def delete_conv' update_conv')
next
  case False
  then show ?thesis
    by (intro exI [of _ "AList.update k v (item_meta it)"])
       (simp add: setMetadata_def Let_def dict_update_def dict_get_def update_conv')
qed

subsection \<open>The Airflow client\<close>

lemma trigger_dag_world:
  "snd (trigger_dag env self w dag_id conf run_id) =
     w\<lparr>http_log := http_log w @
        [HttpPost (api_base self @ ''/dags/'' @ dag_id @ ''/dagRuns'')
           (if run_id = [] then [(''conf'', JDict conf), (''logical_date'', JStr (utc_now env))]
            else AList.update ''dag_run_id'' (JStr run_id)
                   [(''conf'', JDict conf), (''logical_date'', JStr (utc_now env))])]\<rparr>"
  by (simp add: trigger_dag_def Let_def split: sum.splits)

lemma trigger_dag_result:
  "fst (trigger_dag env self w dag_id conf run_id) =
     (case post_reply env (api_base self @ ''/dags/'' @ dag_id @ ''/dagRuns'')
           (if run_id = [] then [(''conf'', JDict conf), (''logical_date'', JStr (utc_now env))]
            else AList.update ''dag_run_id'' (JStr run_id)
                   [(''conf'', JDict conf), (''logical_date'', JStr (utc_now env))]) of
        Inl e \<Rightarrow> Inl (''Failed to trigger DAG '' @ dag_id @ '': '' @ e)
      | Inr r \<Rightarrow> Inr r)"
  by (simp add: trigger_dag_def Let_def split: sum.splits)

subsection \<open>The file scan of \<open>analyze_item\<close>\<close>

lemma scan_files_none_iff:
  "scan_files fs (z, ds) = (None, []) \<longleftrightarrow>
     z = None \<and> ds = []
     \<and> list_all (\<lambda>f. \<not> endswith (file_name f) ''.zip'' \<and> \<not> endswith (file_name f) ''.dcm'') fs"
  by (induction fs arbitrary: z ds) auto

subsection \<open>A successful status query of \<open>get_item_pipeline_status\<close>\<close>

lemma get_item_pipeline_status_write:
  assumes ids: "truthy (dict_get (item_meta item) ''airflow_dag_id'')"
               "truthy (dict_get (item_meta item) ''airflow_job_id'')"
    and ok: "get_reply env
               (api_base self @ ''/dags/''
                  @ py_str (py_repr env) (dict_get (item_meta item) ''airflow_dag_id'')
                  @ ''/dagRuns/''
                  @ py_str (py_repr env) (dict_get (item_meta item) ''airflow_job_id'')) = Inr st"
  shows "\<exists>m'. items (snd (get_item_pipeline_status env self w item))
               = items (save_item w (item\<lparr>item_meta := m'\<rparr>))
           \<and> dict_get m' ''analysis_status'' = dict_get_default st ''state'' (JStr ''unknown'')
           \<and> (\<forall>k. k \<noteq> ''analysis_status'' \<longrightarrow> map_of m' k = map_of (item_meta item) k)"
proof -
  let ?url = "api_base self @ ''/dags/''
                  @ py_str (py_repr env) (dict_get (item_meta item) ''airflow_dag_id'')
                  @ ''/dagRuns/''
                  @ py_str (py_repr env) (dict_get (item_meta item) ''airflow_job_id'')"
  let ?w1 = "w\<lparr>http_log := http_log w @ [HttpGet ?url]\<rparr>"
  let ?state = "dict_get_default st ''state'' (JStr ''unknown'')"
  have run: "snd (get_item_pipeline_status env self w item)
             = snd (setMetadata ?w1 item [(''analysis_status'', ?state)])"
    using ids ok
    by (simp add: get_item_pipeline_status_def Let_def get_dag_run_status_def)
  from single_update_meta [of ?w1 item "''analysis_status''" ?state]
  obtain m' where m': "snd (setMetadata ?w1 item [(''analysis_status'', ?state)])
                        = save_item ?w1 (item\<lparr>item_meta := m'\<rparr>)"
      "dict_get m' ''analysis_status'' = ?state"
      "\<forall>k'. k' \<noteq> ''analysis_status'' \<longrightarrow> map_of m' k' = map_of (item_meta item) k'"
    by blast
  have "items (save_item ?w1 (item\<lparr>item_meta := m'\<rparr>))
        = items (save_item w (item\<lparr>item_meta := m'\<rparr>))"
    by (simp add: save_item_def)
  with run m' have "items (snd (get_item_pipeline_status env self w item))
               = items (save_item w (item\<lparr>item_meta := m'\<rparr>))"
    by simp
  with m'(2,3) show ?thesis by blast
qed

subsection \<open>What the two reconcilers write\<close>

lemma get_item_pipeline_status_unknown:
  assumes ids: "truthy (dict_get (item_meta item) ''airflow_dag_id'')"
               "truthy (dict_get (item_meta item) ''airflow_job_id'')"
  shows "case get_reply env
               (api_base self @ ''/dags/''
                  @ py_str (py_repr env) (dict_get (item_meta item) ''airflow_dag_id'')
                  @ ''/dagRuns/''
                  @ py_str (py_repr env) (dict_get (item_meta item) ''airflow_job_id'')) of
           Inl e \<Rightarrow> items (snd (get_item_pipeline_status env self w item)) = items w
         | Inr st \<Rightarrow>
             (\<exists>m'. items (snd (get_item_pipeline_status env self w item))
                      = items (save_item w (item\<lparr>item_meta := m'\<rparr>))
                  \<and> (dict_get m' ''analysis_status'' = JStr ''unknown''
                       \<longleftrightarrow> map_of st ''state'' = None
                           \<or> map_of st ''state'' = Some (JStr ''unknown'')))"
proof (cases "get_reply env
               (api_base self @ ''/dags/''
                  @ py_str (py_repr env) (dict_get (item_meta item) ''airflow_dag_id'')
                  @ ''/dagRuns/''
                  @ py_str (py_repr env) (dict_get (item_meta item) ''airflow_job_id''))")
  case (Inl e)
  then show ?thesis
    using ids
    by (simp add: get_item_pipeline_status_def Let_def get_dag_run_status_def)
next
  case (Inr st)
  from get_item_pipeline_status_write [OF ids Inr, of w] obtain m' where
    "items (snd (get_item_pipeline_status env self w item))
       = items (save_item w (item\<lparr>item_meta := m'\<rparr>))"
    "dict_get m' ''analysis_status'' = dict_get_default st ''state'' (JStr ''unknown'')"
    by blast
  moreover have "dict_get_default st ''state'' (JStr ''unknown'') = JStr ''unknown''
      \<longleftrightarrow> map_of st ''state'' = None \<or> map_of st ''state'' = Some (JStr ''unknown'')"
    by (simp add: dict_get_default_def split: option.splits)
  ultimately have "\<exists>m'. items (snd (get_item_pipeline_status env self w item))
                      = items (save_item w (item\<lparr>item_meta := m'\<rparr>))
                  \<and> (dict_get m' ''analysis_status'' = JStr ''unknown''
                       \<longleftrightarrow> map_of st ''state'' = None
                           \<or> map_of st ''state'' = Some (JStr ''unknown''))"
    by (intro exI [of _ m']) simp
  then show ?thesis using Inr by simp
qed

lemma get_zip_job_status_items:
  "items (snd (get_zip_job_status env self w job_id)) =
     (case get_reply env (api_base self @ ''/dags/'' @ zip_dag_id self @ ''/dagRuns/'' @ job_id) of
        Inl e \<Rightarrow> items w
      | Inr st \<Rightarrow>
          (case findOne w (\<lambda>i. map_of (item_meta i) ''airflow_job_id'' = Some (JStr job_id)) of
             None \<Rightarrow> items w
           | Some it \<Rightarrow>
               items (snd (setMetadata w it
                 (if dict_get_default st ''state'' (JStr ''unknown'') = JStr ''success''
                  then [(''analysis_status'', JStr ''success''),
                        (''processed_dicom_ready'', JBool True)]
                  else [(''analysis_status'', dict_get_default st ''state'' (JStr ''unknown''))])))))"
  by (simp add: get_zip_job_status_def get_dag_run_status_def get_dag_run_tasks_def Let_def
      findOne_def setMetadata_def save_item_def
      split: sum.splits option.splits)

lemma success_update_meta:
  "\<exists>m'. snd (setMetadata w it [(''analysis_status'', JStr ''success''),
                                 (''processed_dicom_ready'', JBool True)])
             = save_item w (it\<lparr>item_meta := m'\<rparr>)
        \<and> dict_get m' ''analysis_status'' = JStr ''success''
        \<and> dict_get m' ''processed_dicom_ready'' = JBool True
        \<and> (\<forall>k. k \<noteq> ''analysis_status'' \<and> k \<noteq> ''processed_dicom_ready''
               \<longrightarrow> map_of m' k = map_of (item_meta it) k)"
  by (intro exI [of _ "AList.update ''processed_dicom_ready'' (JBool True)
                         (AList.update ''analysis_status'' (JStr ''success'') (item_meta it))"])
     (simp add: setMetadata_def Let_def dict_update_def dict_get_def update_conv')

lemma get_zip_job_status_write:
  "case get_reply env (api_base self @ ''/dags/'' @ zip_dag_id self @ ''/dagRuns/'' @ job_id) of
     Inl e \<Rightarrow> items (snd (get_zip_job_status env self w job_id)) = items w
   | Inr st \<Rightarrow>
       (case findOne w (\<lambda>i. map_of (item_meta i) ''airflow_job_id'' = Some (JStr job_id)) of
          None \<Rightarrow> items (snd (get_zip_job_status env self w job_id)) = items w
        | Some it \<Rightarrow>
            (\<exists>m'. items (snd (get_zip_job_status env self w job_id))
                     = items (save_item w (it\<lparr>item_meta := m'\<rparr>))
                 \<and> dict_get m' ''analysis_status'' = dict_get_default st ''state'' (JStr ''unknown'')
                 \<and> (dict_get m' ''analysis_status'' = JStr ''unknown''
                      \<longleftrightarrow> map_of st ''state'' = None
                          \<or> map_of st ''state'' = Some (JStr ''unknown''))))"
proof (cases "get_reply env (api_base self @ ''/dags/'' @ zip_dag_id self @ ''/dagRuns/'' @ job_id)")
  case (Inl e)
  then show ?thesis by (simp add: get_zip_job_status_items)
next
  case (Inr st)
  let ?state = "dict_get_default st ''state'' (JStr ''unknown'')"
  have unk: "?state = JStr ''unknown''
      \<longleftrightarrow> map_of st ''state'' = None \<or> map_of st ''state'' = Some (JStr ''unknown'')"
    by (simp add: dict_get_default_def split: option.splits)
  show ?thesis
  proof (cases "findOne w (\<lambda>i. map_of (item_meta i) ''airflow_job_id'' = Some (JStr job_id))")
    case None
    with Inr show ?thesis by (simp add: get_zip_job_status_items)
  next
    case (Some it)
    have "\<exists>m'. items (snd (get_zip_job_status env self w job_id))
                     = items (save_item w (it\<lparr>item_meta := m'\<rparr>))
                 \<and> dict_get m' ''analysis_status'' = ?state"
    proof (cases "?state = JStr ''success''")
      case True
      from success_update_meta [of w it] obtain m' where
        "snd (setMetadata w it [(''analysis_status'', JStr ''success''),
                                 (''processed_dicom_ready'', JBool True)])
             = save_item w (it\<lparr>item_meta := m'\<rparr>)"
        "dict_get m' ''analysis_status'' = JStr ''success''"
        by blast
      with Inr Some True show ?thesis
        by (intro exI [of _ m']) (simp add: get_zip_job_status_items)
    next
      case False
      from single_update_meta [of w it "''analysis_status''" ?state] obtain m' where
        "snd (setMetadata w it [(''analysis_status'', ?state)]) = save_item w (it\<lparr>item_meta := m'\<rparr>)"
        "dict_get m' ''analysis_status'' = ?state"
        by blast
      with Inr Some False show ?thesis
        by (intro exI [of _ m']) (simp add: get_zip_job_status_items)
    qed
    then obtain m' where
      "items (snd (get_zip_job_status env self w job_id))
                     = items (save_item w (it\<lparr>item_meta := m'\<rparr>))"
      "dict_get m' ''analysis_status'' = ?state"
      by blast
    with unk have "\<exists>m'. items (snd (get_zip_job_status env self w job_id))
                     = items (save_item w (it\<lparr>item_meta := m'\<rparr>))
                 \<and> dict_get m' ''analysis_status'' = ?state
                 \<and> (dict_get m' ''analysis_status'' = JStr ''unknown''
                      \<longleftrightarrow> map_of st ''state'' = None
                          \<or> map_of st ''state'' = Some (JStr ''unknown''))"
      by (intro exI [of _ m']) simp
    with Inr Some show ?thesis by simp
  qed
qed

subsection \<open>Scenarios\<close>

text \<open>Airflow is unreachable when a ZIP run is submitted for a fresh item.\<close>

lemma zip_trigger_refused:
  "trigger_zip_pipeline airflow_down default_resource
       (store_of [study_item []] [study_zip]) (study_item []) None None =
   ([(''error'', JStr ''Failed to trigger ZIP pipeline: Failed to trigger DAG girder_zip_pipeline: connection refused'')],
    \<lparr>items = [study_item []], files = [study_zip],
     http_log =
       [HttpPost ''http://localhost:8080/api/v2/dags/girder_zip_pipeline/dagRuns''
         [(''conf'',
           JDict
            [(''job_id'', JStr ''1b4e28ba''), (''file_id'', JStr ''file1''),
             (''file_name'', JStr ''scan.zip''),
             (''girder_url'', JStr ''http://localhost:8080''),
             (''girder_token'', JStr ''girder-token-1''),
             (''remote_zip_path'', JStr ''/tmp/girder_zips/''),
             (''source_item_id'', JStr ''item1''),
             (''folder_id'', JStr ''folder1''),
             (''item_name'', JStr ''scan_triage'')]),
          (''logical_date'', JStr ''2025-01-01T00:00:00+00:00''),
          (''dag_run_id'', JStr ''manual__girder_1b4e28ba'')]]\<rparr>)"
  by (simp add: trigger_zip_pipeline_def helper_defs fixture_defs)

text \<open>
  The run of a running item has succeeded. Polled through \<open>get_zip_job_status\<close>, the
  item gets \<open>processed_dicom_ready\<close>; polled through \<open>get_item_pipeline_status\<close>
  (lemma \<open>get_item_pipeline_status_write\<close>), it does not.
\<close>

lemma zip_status_success_sets_flag:
  "items (snd (get_zip_job_status
       (airflow_answers [(''dag_run_id'', JStr ''manual__girder_77''), (''state'', JStr ''success'')])
       default_resource (store_of [study_item running_meta] [study_zip]) ''manual__girder_77''))
   = [study_item [(''airflow_dag_id'', JStr ''girder_zip_pipeline''),
                  (''airflow_job_id'', JStr ''manual__girder_77''),
                  (''analysis_status'', JStr ''success''),
                  (''processed_dicom_ready'', JBool True)]]"
  by (simp add: get_zip_job_status_def helper_defs fixture_defs)

lemma item_status_success_leaves_flag:
  "items (snd (get_item_pipeline_status
       (airflow_answers [(''dag_run_id'', JStr ''manual__girder_77''), (''state'', JStr ''success'')])
       default_resource (store_of [study_item running_meta] [study_zip]) (study_item running_meta)))
   = [study_item [(''airflow_dag_id'', JStr ''girder_zip_pipeline''),
                  (''airflow_job_id'', JStr ''manual__girder_77''),
                  (''analysis_status'', JStr ''success'')]]"
  by (simp add: get_item_pipeline_status_def helper_defs fixture_defs)

section \<open>Claims about the job orchestrator\<close>

text \<open>
  Claim C1, as stated, at an item with a DICOM file and no ZIP file whose analysis run
  has just been triggered: \<open>analyze_item\<close> leaves \<open>analysis_status = queued\<close> on
  the item, and \<open>trigger_zip_pipeline\<close>, which looks for a ZIP file first, answers
  with an error, not with the in-progress result.
\<close>

theorem trigger_zip_pipeline_queued_no_zip:
  "items (snd (analyze_item (airflow_answers analysis_queued) default_resource
                 (store_of [study_item []] [study_dcm]) (study_item []) None))
     = [study_item queued_meta]
   \<and> dict_get (item_meta (study_item queued_meta)) ''analysis_status'' = JStr ''queued''
   \<and> fst (trigger_zip_pipeline (airflow_answers analysis_queued) default_resource
             (store_of [study_item queued_meta] [study_dcm]) (study_item queued_meta) None None)
       = [(''error'', JStr ''No ZIP file found in item'')]"
  by (simp add: analyze_item_def trigger_zip_pipeline_def helper_defs fixture_defs
      study_dcm_def analysis_queued_def queued_meta_def)

text \<open>
  Claim C1, amended: for every item whose persisted \<open>analysis_status\<close> is \<open>queued\<close>
  or \<open>running\<close>, \<open>trigger_zip_pipeline\<close> sends no request and leaves the store as it
  was; when the item has a ZIP file and the request carries a Girder token, the answer
  is the in-progress result with the item's existing job id; without a ZIP file, or
  without a token, the answer is the corresponding error.
\<close>

theorem trigger_zip_pipeline_in_progress:
  assumes "dict_get (item_meta item) ''analysis_status'' = JStr ''queued''
           \<or> dict_get (item_meta item) ''analysis_status'' = JStr ''running''"
  shows "snd (trigger_zip_pipeline env self w item folder_id new_name) = w
       \<and> fst (trigger_zip_pipeline env self w item folder_id new_name) =
           (if latest_zip_file w item = None
            then [(''error'', JStr ''No ZIP file found in item'')]
            else if \<not> truthy (token_value env)
            then [(''error'', JStr ''No Girder API token in current request context'')]
            else [(''status'', JStr ''in_progress''),
                  (''warning'', JStr ''Processing is already running for this item.''),
                  (''job_id'', dict_get (item_meta item) ''airflow_job_id''),
                  (''dag_id'', dict_get_default (item_meta item) ''airflow_dag_id''
                                 (JStr (zip_dag_id self)))])"
  using assms by (auto simp: trigger_zip_pipeline_def Let_def split: option.splits)

theorem trigger_zip_pipeline_in_progress_witness:
  "snd (trigger_zip_pipeline airflow_down default_resource
             (store_of [study_item running_meta] [study_zip]) (study_item running_meta) None None)
      = store_of [study_item running_meta] [study_zip]
   \<and> fst (trigger_zip_pipeline airflow_down default_resource
             (store_of [study_item running_meta] [study_zip]) (study_item running_meta) None None)
      = [(''status'', JStr ''in_progress''),
         (''warning'', JStr ''Processing is already running for this item.''),
         (''job_id'', JStr ''manual__girder_77''),
         (''dag_id'', JStr ''girder_zip_pipeline'')]"
  using trigger_zip_pipeline_in_progress
    [of "study_item running_meta" airflow_down default_resource
      "store_of [study_item running_meta] [study_zip]" None None]
  by (simp add: latest_zip_file_def childFiles_def store_of_def
      study_item_def study_zip_def running_meta_def dict_get_def dict_get_default_def
      endswith_def py_lower_def lower_char_def token_value_def airflow_down_def request_env_def
      default_resource_def)

text \<open>
  Claim C4: whenever \<open>trigger_zip_pipeline\<close> has sent its trigger request and the
  request failed, the items and files of the store are what they were before the call,
  and the answer is the error result carrying the reason; nothing is raised.
\<close>

theorem trigger_failure_persists_nothing:
  assumes run: "trigger_zip_pipeline env self w item folder_id new_name = (body, w')"
    and sent: "http_log w' = http_log w @ [HttpPost url payload]"
    and failed: "post_reply env url payload = Inl e"
  shows "items w' = items w \<and> files w' = files w
       \<and> body = [(''error'', JStr (''Failed to trigger ZIP pipeline: ''
                     @ ''Failed to trigger DAG '' @ zip_dag_id self @ '': '' @ e))]"
  using assms
  by (auto simp: trigger_zip_pipeline_def Let_def trigger_dag_world trigger_dag_result
      prod_eq_iff split: option.splits if_splits sum.splits prod.splits)

theorem trigger_failure_persists_nothing_witness:
  "items (snd (trigger_zip_pipeline airflow_down default_resource
                 (store_of [study_item []] [study_zip]) (study_item []) None None))
     = [study_item []]
   \<and> fst (trigger_zip_pipeline airflow_down default_resource
                 (store_of [study_item []] [study_zip]) (study_item []) None None)
     = [(''error'', JStr ''Failed to trigger ZIP pipeline: Failed to trigger DAG girder_zip_pipeline: connection refused'')]"
proof -
  have sent: "http_log (snd (trigger_zip_pipeline airflow_down default_resource
                 (store_of [study_item []] [study_zip]) (study_item []) None None))
     = http_log (store_of [study_item []] [study_zip]) @
       [HttpPost ''http://localhost:8080/api/v2/dags/girder_zip_pipeline/dagRuns''
         [(''conf'',
           JDict
            [(''job_id'', JStr ''1b4e28ba''), (''file_id'', JStr ''file1''),
             (''file_name'', JStr ''scan.zip''),
             (''girder_url'', JStr ''http://localhost:8080''),
             (''girder_token'', JStr ''girder-token-1''),
             (''remote_zip_path'', JStr ''/tmp/girder_zips/''),
             (''source_item_id'', JStr ''item1''),
             (''folder_id'', JStr ''folder1''),
             (''item_name'', JStr ''scan_triage'')]),
          (''logical_date'', JStr ''2025-01-01T00:00:00+00:00''),
          (''dag_run_id'', JStr ''manual__girder_1b4e28ba'')]]"
    by (simp add: zip_trigger_refused) (simp add: store_of_def)
  have failed: "post_reply airflow_down url body = Inl ''connection refused''" for url body
    by (simp add: airflow_down_def request_env_def)
  from trigger_failure_persists_nothing [OF prod.collapse [symmetric] sent failed]
  show ?thesis by (simp add: store_of_def default_resource_def)
qed

text \<open>
  Claim C10: \<open>analyze_item\<close> looks at no field of the item's metadata. Whatever the
  metadata \<open>m\<close> of the item, a call for an item with at least one ZIP or DICOM file
  and a Hugging Face token (parameter or environment) sends one trigger request, whose
  run id and \<open>job_id\<close> are built from the identifier minted in this call.
\<close>

theorem analyze_item_always_triggers:
  assumes fs: "list_ex (\<lambda>f. endswith (file_name f) ''.zip'' \<or> endswith (file_name f) ''.dcm'')
                 (childFiles w item)"
    and tok: "truthy (py_or (case hf of None \<Rightarrow> JNone | Some t \<Rightarrow> JStr t)
                            (getenv env ''HUGGINGFACE_TOKEN''))"
  shows "\<exists>conf. http_log (snd (analyze_item env self w (item\<lparr>item_meta := m\<rparr>) hf))
                  = http_log w @
                    [HttpPost (api_base self @ ''/dags/'' @ analysis_dag_id self @ ''/dagRuns'')
                       [(''conf'', JDict conf),
                        (''logical_date'', JStr (utc_now env)),
                        (''dag_run_id'', JStr (''manual__analysis_'' @ uuid4 env))]]
              \<and> dict_get conf ''job_id'' = JStr (uuid4 env)
              \<and> files (snd (analyze_item env self w (item\<lparr>item_meta := m\<rparr>) hf)) = files w"
proof -
  obtain z ds where sc: "scan_files (childFiles w item) (None, []) = (z, ds)"
    by (cases "scan_files (childFiles w item) (None, [])") auto
  have "\<not> list_all (\<lambda>f. \<not> endswith (file_name f) ''.zip'' \<and> \<not> endswith (file_name f) ''.dcm'')
           (childFiles w item)"
    using fs by (auto simp: list_all_iff list_ex_iff)
  with sc have nonempty: "\<not> (z = None \<and> ds = [])"
    using scan_files_none_iff [of "childFiles w item" None "[]"] by auto
  have cf: "childFiles w (item\<lparr>item_meta := m\<rparr>) = childFiles w item"
    by (simp add: childFiles_def)
  let ?hf = "py_or (case hf of None \<Rightarrow> JNone | Some t \<Rightarrow> JStr t) (getenv env ''HUGGINGFACE_TOKEN'')"
  let ?conf0 = "[(''job_id'', JStr (uuid4 env)),
                 (''item_id'', JStr (item_id item)),
                 (''girder_url'', JStr (getenv_default env ''GIRDER_URL'' ''http://localhost:8080'')),
                 (''girder_token'', token_value env),
                 (''hf_token'', ?hf),
                 (''extract_dir'', JStr (''/tmp/medgemma_extract_'' @ uuid4 env)),
                 (''anonymized_dir'', JStr (''/tmp/medgemma_anonymized_'' @ uuid4 env)),
                 (''output_dir'', JStr (''/tmp/medgemma_output_'' @ uuid4 env))]"
  let ?conf = "case z of None \<Rightarrow> ?conf0
               | Some f \<Rightarrow> AList.update ''remote_zip_path'' (JStr (''/tmp/medgemma_work/'' @ file_name f))
                            (AList.update ''file_id'' (JStr (file_id f)) ?conf0)"
  let ?t = "trigger_dag env self w (analysis_dag_id self) ?conf (''manual__analysis_'' @ uuid4 env)"
  have run: "snd (analyze_item env self w (item\<lparr>item_meta := m\<rparr>) hf) =
     (case fst ?t of
        Inr dag_run \<Rightarrow> snd (set_trigger_metadata env (snd ?t) (item\<lparr>item_meta := m\<rparr>)
                           (analysis_dag_id self) dag_run)
      | Inl e \<Rightarrow> snd ?t)"
    using sc nonempty tok
    by (cases z; cases "fst ?t") (simp_all add: analyze_item_def cf Let_def case_prod_beta)
  have log: "http_log (snd (analyze_item env self w (item\<lparr>item_meta := m\<rparr>) hf)) = http_log (snd ?t)"
    and fls: "files (snd (analyze_item env self w (item\<lparr>item_meta := m\<rparr>) hf)) = files (snd ?t)"
    unfolding run by (simp_all split: sum.splits)
  have job: "dict_get ?conf ''job_id'' = JStr (uuid4 env)"
    by (cases z) (simp_all add: dict_get_def)
  show ?thesis
    unfolding log fls
    by (intro exI [of _ ?conf] conjI job) (simp_all add: trigger_dag_world)
qed

text \<open>
  Two calls in a row for the running item, the second with the identifier the next
  request mints: two trigger requests, two runs.
\<close>

theorem analyze_item_always_triggers_witness:
  "\<exists>conf1 conf2.
     http_log (snd (analyze_item (airflow_down\<lparr>uuid4 := ''9f3c07aa''\<rparr>) default_resource
                     (snd (analyze_item airflow_down default_resource
                             (store_of [study_item running_meta] [study_zip])
                             (study_item running_meta) None))
                     (study_item running_meta) None))
     = [HttpPost ''http://localhost:8080/api/v2/dags/medgemma_analysis_pipeline/dagRuns''
          [(''conf'', JDict conf1),
           (''logical_date'', JStr ''2025-01-01T00:00:00+00:00''),
           (''dag_run_id'', JStr ''manual__analysis_1b4e28ba'')],
        HttpPost ''http://localhost:8080/api/v2/dags/medgemma_analysis_pipeline/dagRuns''
          [(''conf'', JDict conf2),
           (''logical_date'', JStr ''2025-01-01T00:00:00+00:00''),
           (''dag_run_id'', JStr ''manual__analysis_9f3c07aa'')]]"
proof -
  let ?w = "store_of [study_item running_meta] [study_zip]"
  let ?it = "study_item running_meta"
  let ?e2 = "airflow_down\<lparr>uuid4 := ''9f3c07aa''\<rparr>"
  let ?w1 = "snd (analyze_item airflow_down default_resource ?w ?it None)"
  have it: "?it\<lparr>item_meta := running_meta\<rparr> = ?it"
    by (simp add: study_item_def)
  have fs: "list_ex (\<lambda>f. endswith (file_name f) ''.zip'' \<or> endswith (file_name f) ''.dcm'')
              (childFiles ?w ?it)"
    by (simp add: childFiles_def store_of_def study_item_def study_zip_def endswith_def)
  have tok: "truthy (py_or (case None of None \<Rightarrow> JNone | Some t \<Rightarrow> JStr t)
                        (getenv airflow_down ''HUGGINGFACE_TOKEN''))"
            "truthy (py_or (case None of None \<Rightarrow> JNone | Some t \<Rightarrow> JStr t)
                        (getenv ?e2 ''HUGGINGFACE_TOKEN''))"
    by (simp_all add: py_or_def getenv_def airflow_down_def request_env_def)
  from analyze_item_always_triggers [OF fs tok(1), of default_resource running_meta]
  obtain conf1 where first:
    "http_log ?w1 = http_log ?w @
       [HttpPost (api_base default_resource @ ''/dags/'' @ analysis_dag_id default_resource @ ''/dagRuns'')
          [(''conf'', JDict conf1),
           (''logical_date'', JStr (utc_now airflow_down)),
           (''dag_run_id'', JStr (''manual__analysis_'' @ uuid4 airflow_down))]]"
    "files ?w1 = files ?w"
    unfolding it by blast
  have fs1: "list_ex (\<lambda>f. endswith (file_name f) ''.zip'' \<or> endswith (file_name f) ''.dcm'')
              (childFiles ?w1 ?it)"
    using fs first(2) by (simp add: childFiles_def)
  from analyze_item_always_triggers [OF fs1 tok(2), of default_resource running_meta]
  obtain conf2 where second:
    "http_log (snd (analyze_item ?e2 default_resource ?w1 ?it None)) = http_log ?w1 @
       [HttpPost (api_base default_resource @ ''/dags/'' @ analysis_dag_id default_resource @ ''/dagRuns'')
          [(''conf'', JDict conf2),
           (''logical_date'', JStr (utc_now ?e2)),
           (''dag_run_id'', JStr (''manual__analysis_'' @ uuid4 ?e2))]]"
    unfolding it by blast
  show ?thesis
    unfolding second first(1)
    by (intro exI [of _ conf1] exI [of _ conf2])
       (simp add: store_of_def default_resource_def airflow_down_def request_env_def)
qed

section \<open>Claims about the status reconciler\<close>

text \<open>
  Claim C7, on \<open>get_item_pipeline_status\<close>: for an item with a persisted job whose
  status query succeeds, the stored metadata afterwards has \<open>analysis_status\<close> set to
  the state of the answer and every other field as before. In particular
  \<open>processed_dicom_ready\<close> is not set when that state is \<open>success\<close>, which the
  claim asks for and \<open>get_zip_job_status\<close> does
  (\<open>zip_status_success_sets_flag\<close>).
\<close>

theorem item_status_overwrites_state_only:
  assumes "truthy (dict_get (item_meta item) ''airflow_dag_id'')"
      and "truthy (dict_get (item_meta item) ''airflow_job_id'')"
      and "get_reply env
               (api_base self @ ''/dags/''
                  @ py_str (py_repr env) (dict_get (item_meta item) ''airflow_dag_id'')
                  @ ''/dagRuns/''
                  @ py_str (py_repr env) (dict_get (item_meta item) ''airflow_job_id'')) = Inr st"
  shows "\<exists>m'. items (snd (get_item_pipeline_status env self w item))
               = items (save_item w (item\<lparr>item_meta := m'\<rparr>))
           \<and> dict_get m' ''analysis_status'' = dict_get_default st ''state'' (JStr ''unknown'')
           \<and> (\<forall>k. k \<noteq> ''analysis_status'' \<longrightarrow> map_of m' k = map_of (item_meta item) k)"
  using assms by (rule get_item_pipeline_status_write)

theorem item_status_overwrites_state_only_witness:
  "\<exists>m'. items (snd (get_item_pipeline_status
             (airflow_answers [(''dag_run_id'', JStr ''manual__girder_77''), (''state'', JStr ''success'')])
             default_resource (store_of [study_item running_meta] [study_zip])
             (study_item running_meta)))
          = [study_item m']
       \<and> dict_get m' ''analysis_status'' = JStr ''success''
       \<and> map_of m' ''processed_dicom_ready'' = None"
proof -
  let ?env = "airflow_answers [(''dag_run_id'', JStr ''manual__girder_77''), (''state'', JStr ''success'')]"
  have ids: "truthy (dict_get (item_meta (study_item running_meta)) ''airflow_dag_id'')"
            "truthy (dict_get (item_meta (study_item running_meta)) ''airflow_job_id'')"
    by (simp_all add: study_item_def running_meta_def dict_get_def)
  have ok: "get_reply ?env url = Inr [(''dag_run_id'', JStr ''manual__girder_77''), (''state'', JStr ''success'')]"
    for url
    by (simp add: airflow_answers_def request_env_def)
  from item_status_overwrites_state_only
    [OF ids ok, of default_resource "store_of [study_item running_meta] [study_zip]"]
  obtain m' where m':
    "items (snd (get_item_pipeline_status ?env default_resource
                   (store_of [study_item running_meta] [study_zip]) (study_item running_meta)))
       = items (save_item (store_of [study_item running_meta] [study_zip])
                  (study_item running_meta\<lparr>item_meta := m'\<rparr>))"
    "dict_get m' ''analysis_status''
       = dict_get_default [(''dag_run_id'', JStr ''manual__girder_77''), (''state'', JStr ''success'')]
           ''state'' (JStr ''unknown'')"
    "\<forall>k. k \<noteq> ''analysis_status'' \<longrightarrow> map_of m' k = map_of (item_meta (study_item running_meta)) k"
    by blast
  from m'(3) have "map_of m' ''processed_dicom_ready''
                   = map_of (item_meta (study_item running_meta)) ''processed_dicom_ready''"
    by simp
  then have flag: "map_of m' ''processed_dicom_ready'' = None"
    by (simp add: study_item_def running_meta_def)
  have st: "dict_get m' ''analysis_status'' = JStr ''success''"
    using m'(2) by (simp add: dict_get_default_def)
  have "items (snd (get_item_pipeline_status ?env default_resource
                   (store_of [study_item running_meta] [study_zip]) (study_item running_meta)))
        = [study_item m']"
    using m'(1) by (simp add: save_item_def store_of_def study_item_def)
  with st flag show ?thesis by blast
qed

text \<open>
  Claim C8, as stated, at a running item whose status query is answered without a
  \<open>state\<close> field: the reconciler stores \<open>unknown\<close> over \<open>running\<close>.
\<close>

theorem item_status_unknown_overwrites_running:
  "dict_get (item_meta (study_item running_meta)) ''analysis_status'' = JStr ''running''
   \<and> items (snd (get_item_pipeline_status
       (airflow_answers [(''dag_run_id'', JStr ''manual__girder_77'')])
       default_resource (store_of [study_item running_meta] [study_zip]) (study_item running_meta)))
   = [study_item [(''airflow_dag_id'', JStr ''girder_zip_pipeline''),
                  (''airflow_job_id'', JStr ''manual__girder_77''),
                  (''analysis_status'', JStr ''unknown'')]]"
  by (simp add: get_item_pipeline_status_def helper_defs fixture_defs)

text \<open>
  Claim C8, amended: in both reconcilers a status query that fails leaves the items of
  the store as they were, so a failure never puts \<open>unknown\<close> over a known state. A
  status query that succeeds overwrites \<open>analysis_status\<close>, whatever it was, and the
  value written is \<open>unknown\<close> exactly when the answer has no \<open>state\<close> field or
  reports \<open>unknown\<close>.
\<close>

theorem reconcile_unknown_only_from_answer:
  assumes ids: "truthy (dict_get (item_meta item) ''airflow_dag_id'')"
               "truthy (dict_get (item_meta item) ''airflow_job_id'')"
  shows "(case get_reply env
               (api_base self @ ''/dags/''
                  @ py_str (py_repr env) (dict_get (item_meta item) ''airflow_dag_id'')
                  @ ''/dagRuns/''
                  @ py_str (py_repr env) (dict_get (item_meta item) ''airflow_job_id'')) of
           Inl e \<Rightarrow> items (snd (get_item_pipeline_status env self w item)) = items w
         | Inr st \<Rightarrow>
             (\<exists>m'. items (snd (get_item_pipeline_status env self w item))
                      = items (save_item w (item\<lparr>item_meta := m'\<rparr>))
                  \<and> (dict_get m' ''analysis_status'' = JStr ''unknown''
                       \<longleftrightarrow> map_of st ''state'' = None
                           \<or> map_of st ''state'' = Some (JStr ''unknown''))))
       \<and> (case get_reply env (api_base self @ ''/dags/'' @ zip_dag_id self @ ''/dagRuns/'' @ job_id) of
            Inl e \<Rightarrow> items (snd (get_zip_job_status env self w job_id)) = items w
          | Inr st \<Rightarrow>
              (case findOne w (\<lambda>i. map_of (item_meta i) ''airflow_job_id'' = Some (JStr job_id)) of
                 None \<Rightarrow> items (snd (get_zip_job_status env self w job_id)) = items w
               | Some it \<Rightarrow>
                   (\<exists>m'. items (snd (get_zip_job_status env self w job_id))
                            = items (save_item w (it\<lparr>item_meta := m'\<rparr>))
                        \<and> dict_get m' ''analysis_status''
                            = dict_get_default st ''state'' (JStr ''unknown'')
                        \<and> (dict_get m' ''analysis_status'' = JStr ''unknown''
                             \<longleftrightarrow> map_of st ''state'' = None
                                 \<or> map_of st ''state'' = Some (JStr ''unknown'')))))"
  using get_item_pipeline_status_unknown [OF ids] get_zip_job_status_write
  by (rule conjI)

text \<open>Airflow is unreachable: neither reconciler touches the running item.\<close>

theorem reconcile_unknown_only_from_answer_witness:
  "items (snd (get_item_pipeline_status airflow_down default_resource
                 (store_of [study_item running_meta] [study_zip]) (study_item running_meta)))
     = [study_item running_meta]
   \<and> items (snd (get_zip_job_status airflow_down default_resource
                 (store_of [study_item running_meta] [study_zip]) ''manual__girder_77''))
     = [study_item running_meta]"
proof -
  have ids: "truthy (dict_get (item_meta (study_item running_meta)) ''airflow_dag_id'')"
            "truthy (dict_get (item_meta (study_item running_meta)) ''airflow_job_id'')"
    by (simp_all add: study_item_def running_meta_def dict_get_def)
  have failed: "get_reply airflow_down url = Inl ''connection refused''" for url
    by (simp add: airflow_down_def request_env_def)
  from reconcile_unknown_only_from_answer
    [OF ids, of airflow_down default_resource "store_of [study_item running_meta] [study_zip]"
       "''manual__girder_77''"]
  show ?thesis by (simp add: failed store_of_def)
qed


section \<open>Properties of the double-precision progress computation\<close>

subsection \<open>Rounding to the nearest double\<close>

lemma two_powi_pos [simp]: "0 < (2::rat) powi n"
  by (simp add: zero_less_power_int)

lemma two_powi_nat: "0 \<le> n \<Longrightarrow> (2::rat) powi n = of_int (2 ^ nat n)"
  by (simp add: power_int_nonneg_exp)

lemma ilog2_bounds:
  assumes "0 < q"
  shows "2 powi (ilog2 q) \<le> q" and "q < 2 powi (ilog2 q + 1)"
proof -
  obtain a b where ab: "quotient_of q = (a, b)"
    by (cases "quotient_of q") auto
  have b: "0 < b" using ab by (rule quotient_of_denom_pos)
  have q: "q = of_int a / of_int b" using ab by (rule quotient_of_div)
  have a: "0 < a" using assms b by (simp add: q zero_less_divide_iff)
  define la lb where "la = bitlen a" and "lb = bitlen b"
  have la: "1 \<le> la" using a bitlen_eq_zero_iff [of a] bitlen_nonneg [of a] by (simp add: la_def)
  have lb: "1 \<le> lb" using b bitlen_eq_zero_iff [of b] bitlen_nonneg [of b] by (simp add: lb_def)
  have a1: "(2::rat) powi (la - 1) \<le> of_int a"
    using bitlen_bounds [OF a] la unfolding la_def
    by (simp add: two_powi_nat del: of_int_power)
  have a2: "of_int a < (2::rat) powi la"
    using bitlen_bounds [OF a] la unfolding la_def
    by (simp add: two_powi_nat del: of_int_power)
  have b1: "(2::rat) powi (lb - 1) \<le> of_int b"
    using bitlen_bounds [OF b] lb unfolding lb_def
    by (simp add: two_powi_nat del: of_int_power)
  have b2: "of_int b < (2::rat) powi lb"
    using bitlen_bounds [OF b] lb unfolding lb_def
    by (simp add: two_powi_nat del: of_int_power)
  have "q < 2 powi la / 2 powi (lb - 1)"
    unfolding q using a a2 b1 by (intro frac_less) simp_all
  also have "\<dots> = 2 powi (la - lb + 1)"
    by (simp add: power_int_diff power_int_add)
  finally have upper: "q < 2 powi (la - lb + 1)" .
  have "2 powi (la - 1) / 2 powi lb < q"
    unfolding q using a1 b b2 by (intro frac_less2) simp_all
  moreover have "(2::rat) powi (la - 1) / 2 powi lb = 2 powi (la - lb - 1)"
    by (simp add: power_int_diff)
  ultimately have lower: "2 powi (la - lb - 1) < q" by simp
  have il: "ilog2 q = (if 2 powi (la - lb) \<le> q then la - lb else la - lb - 1)"
    by (simp add: ilog2_def ab la_def lb_def Let_def)
  show "2 powi (ilog2 q) \<le> q"
    using lower by (simp add: il)
  show "q < 2 powi (ilog2 q + 1)"
    using upper by (auto simp: il not_le)
qed

lemma ilog2_ge:
  assumes "0 < q" and "2 powi k \<le> q"
  shows "k \<le> ilog2 q"
proof (rule ccontr)
  assume "\<not> k \<le> ilog2 q"
  then have "ilog2 q + 1 \<le> k" by simp
  then have "(2::rat) powi (ilog2 q + 1) \<le> 2 powi k"
    by (intro power_int_increasing) simp_all
  with assms(2) ilog2_bounds(2) [OF assms(1)] show False by simp
qed

lemma round_half_even_error: "\<bar>of_int (round_half_even x) - x\<bar> \<le> 1 / 2"
proof -
  have "of_int \<lfloor>x\<rfloor> \<le> x" "x < of_int \<lfloor>x\<rfloor> + 1" by linarith+
  then show ?thesis
    by (auto simp: round_half_even_def Let_def abs_le_iff)
qed

lemma round_double_error:
  assumes "0 < q" and "- 1022 \<le> ilog2 q"
  shows "\<bar>round_double q - q\<bar> \<le> q / 2 ^ 53"
proof -
  define e where "e = ilog2 q - 52"
  define P :: rat where "P = 2 powi e"
  define m where "m = round_half_even (q / P)"
  have P: "0 < P" by (simp add: P_def)
  have mx: "max (ilog2 q - 52) (- 1074) = e"
    using assms(2) by (simp add: e_def)
  have sg: "sgn q = 1" "\<bar>q\<bar> = q" "q \<noteq> 0"
    using assms(1) by simp_all
  have rd: "round_double q = of_int m * P"
    unfolding round_double_def Let_def mx sg P_def m_def using sg(3) by simp
  have "\<bar>of_int m - q / P\<bar> \<le> 1 / 2"
    unfolding m_def by (rule round_half_even_error)
  then have "\<bar>of_int m - q / P\<bar> * P \<le> 1 / 2 * P"
    using P by (intro mult_right_mono) simp_all
  moreover have "\<bar>of_int m - q / P\<bar> * P = \<bar>(of_int m - q / P) * P\<bar>"
    using P by (simp add: abs_mult)
  moreover have "(of_int m - q / P) * P = of_int m * P - q"
    using P by (simp add: field_simps)
  ultimately have err: "\<bar>round_double q - q\<bar> \<le> P / 2" by (simp add: rd)
  have "P = 2 powi (ilog2 q) / 2 ^ 52"
    by (simp add: P_def e_def power_int_diff)
  also have "\<dots> \<le> q / 2 ^ 52"
    using ilog2_bounds(1) [OF assms(1)] by (intro divide_right_mono) simp_all
  finally have "P / 2 \<le> q / 2 ^ 53" by simp
  with err show ?thesis by linarith
qed


lemma round_double_zero [simp]: "round_double 0 = 0"
  by (simp add: round_double_def)

text \<open>The quotient and the product of the progress computation, for a list of fewer
  than \<open>2 ^ 40\<close> tasks of which at least one is done.\<close>

lemma progress_floats:
  fixes d t :: nat
  assumes d: "0 < d" "d \<le> t" and t: "t < 2 ^ 40"
  defines "q1 \<equiv> (of_nat d / of_nat t :: rat)"
  defines "x \<equiv> round_double q1"
  defines "y \<equiv> round_double (x * 100)"
  shows "\<bar>x - q1\<bar> \<le> q1 / 2 ^ 53" and "0 < x" and "x \<le> 2"
    and "\<bar>y - 100 * q1\<bar> \<le> 300 / 2 ^ 53" and "0 < y"
proof -
  have tpos: "0 < t" using d by simp
  have q1pos: "0 < q1" using d tpos by (simp add: q1_def)
  have q1le: "q1 \<le> 1" using d tpos by (simp add: q1_def)
  have "(of_nat t :: rat) < 2 ^ 40"
    using t by (metis of_nat_less_iff of_nat_numeral of_nat_power)
  then have "1 / 2 ^ 40 < 1 / (of_nat t :: rat)"
    using tpos by (intro divide_strict_left_mono) simp_all
  also have "1 / (of_nat t :: rat) \<le> q1"
    unfolding q1_def using d tpos by (intro divide_right_mono) simp_all
  finally have q1low: "1 / 2 ^ 40 < q1" .
  have "(2::rat) powi (- 40) \<le> q1"
    using q1low by (simp add: power_int_minus_divide)
  then have "- 40 \<le> ilog2 q1" using q1pos by (intro ilog2_ge)
  then have "- 1022 \<le> ilog2 q1" by simp
  with q1pos show xerr: "\<bar>x - q1\<bar> \<le> q1 / 2 ^ 53"
    unfolding x_def by (rule round_double_error)
  have small1: "q1 / 2 ^ 53 \<le> q1 / 2"
    using q1pos by (intro divide_left_mono) simp_all
  have xd: "x - q1 \<le> q1 / 2 ^ 53" "- (x - q1) \<le> q1 / 2 ^ 53"
    using xerr by (rule abs_le_D1, rule abs_le_D2)
  have xlow: "q1 / 2 \<le> x"
    using xd small1 by linarith
  show xpos: "0 < x" using xlow q1pos by linarith
  have xup: "x \<le> 2 * q1"
    using xd small1 q1pos by linarith
  show "x \<le> 2" using xup q1le by linarith
  define q2 where "q2 = x * 100"
  have q2pos: "0 < q2" using xpos by (simp add: q2_def)
  have "1 / 2 ^ 40 \<le> q2" using xlow q1low by (simp add: q2_def)
  then have "(2::rat) powi (- 40) \<le> q2"
    by (simp add: power_int_minus_divide)
  then have "- 40 \<le> ilog2 q2" using q2pos by (intro ilog2_ge)
  then have "- 1022 \<le> ilog2 q2" by simp
  with q2pos have yerr: "\<bar>y - q2\<bar> \<le> q2 / 2 ^ 53"
    unfolding y_def q2_def [symmetric] by (rule round_double_error)
  have tri: "\<bar>y - 100 * q1\<bar> \<le> \<bar>y - q2\<bar> + \<bar>q2 - 100 * q1\<bar>" by simp
  have "q2 - 100 * q1 = 100 * (x - q1)" by (simp add: q2_def algebra_simps)
  then have sc: "\<bar>q2 - 100 * q1\<bar> = 100 * \<bar>x - q1\<bar>"
    by (simp only: abs_mult abs_numeral)
  have "100 * \<bar>x - q1\<bar> \<le> 100 * (q1 / 2 ^ 53)"
    using xerr by (intro mult_left_mono) simp_all
  with yerr have "\<bar>y - q2\<bar> + 100 * \<bar>x - q1\<bar> \<le> q2 / 2 ^ 53 + 100 * (q1 / 2 ^ 53)"
    by (rule add_mono)
  with tri sc have "\<bar>y - 100 * q1\<bar> \<le> q2 / 2 ^ 53 + 100 * (q1 / 2 ^ 53)"
    by simp
  also have "\<dots> \<le> 300 / 2 ^ 53"
    using xup q1le by (simp add: q2_def)
  finally show "\<bar>y - 100 * q1\<bar> \<le> 300 / 2 ^ 53" .
  have "q2 / 2 ^ 53 \<le> q2 / 2"
    using q2pos by (intro divide_left_mono) simp_all
  moreover have "- (y - q2) \<le> q2 / 2 ^ 53"
    using yerr by (rule abs_le_D2)
  ultimately have "q2 / 2 \<le> y" by linarith
  then show "0 < y" using q2pos by linarith
qed

subsection \<open>The percentage, for fewer than \<open>2 ^ 40\<close> tasks\<close>




subsection \<open>Evaluating the rounding on numerals\<close>

lemma ilog2_unique:
  assumes "0 < q" and "2 powi l \<le> q" and "q < 2 powi (l + 1)"
  shows "ilog2 q = l"
proof -
  have "l \<le> ilog2 q" using assms(1,2) by (rule ilog2_ge)
  moreover have "ilog2 q \<le> l"
  proof (rule ccontr)
    assume "\<not> ilog2 q \<le> l"
    then have "l + 1 \<le> ilog2 q" by simp
    then have "(2::rat) powi (l + 1) \<le> 2 powi (ilog2 q)"
      by (intro power_int_increasing) simp_all
    with ilog2_bounds(1) [OF assms(1)] assms(3) show False by simp
  qed
  ultimately show ?thesis by simp
qed

lemma round_double_normal:
  assumes "0 < q" and "2 powi l \<le> q" and "q < 2 powi (l + 1)" and "- 1022 \<le> l"
  shows "round_double q = of_int (round_half_even (q / 2 powi (l - 52))) * 2 powi (l - 52)"
proof -
  have il: "ilog2 q = l" using assms(1-3) by (rule ilog2_unique)
  have mx: "max (l - 52) (- 1074) = l - 52" using assms(4) by simp
  have sg: "sgn q = 1" "\<bar>q\<bar> = q" "q \<noteq> 0" using assms(1) by simp_all
  show ?thesis
    unfolding round_double_def Let_def sg il mx using sg(3) by simp
qed

lemma round_half_even_frac:
  fixes a b :: int
  assumes "0 < b"
  shows "round_half_even (of_int a / of_int b) =
           (if 2 * (a mod b) < b then a div b
            else if b < 2 * (a mod b) then a div b + 1
            else if even (a div b) then a div b else a div b + 1)"
proof -
  have fl: "\<lfloor>(of_int a / of_int b :: rat)\<rfloor> = a div b"
    by (rule floor_divide_of_int_eq)
  have "(of_int a :: rat) = of_int (b * (a div b) + a mod b)"
    by (simp only: mult_div_mod_eq)
  then have "(of_int a :: rat) = of_int b * of_int (a div b) + of_int (a mod b)"
    by (simp only: of_int_add of_int_mult)
  then have fr: "(of_int a / of_int b :: rat) - of_int (a div b) = of_int (a mod b) / of_int b"
    using assms by (simp add: field_simps)
  have lt: "(of_int (a mod b) / of_int b :: rat) < 1 / 2 \<longleftrightarrow> 2 * (a mod b) < b"
  proof -
    have "(of_int (a mod b) / of_int b :: rat) < 1 / 2
          \<longleftrightarrow> (of_int (2 * (a mod b)) :: rat) < of_int b"
      using assms by (simp add: field_simps)
    then show ?thesis by (simp only: of_int_less_iff)
  qed
  have gt: "(1 / 2 :: rat) < of_int (a mod b) / of_int b \<longleftrightarrow> b < 2 * (a mod b)"
  proof -
    have "(1 / 2 :: rat) < of_int (a mod b) / of_int b
          \<longleftrightarrow> (of_int b :: rat) < of_int (2 * (a mod b))"
      using assms by (simp add: field_simps)
    then show ?thesis by (simp only: of_int_less_iff)
  qed
  show ?thesis
    unfolding round_half_even_def Let_def fl fr lt gt by simp
qed

lemma round_half_even_numeral_frac:
  "round_half_even (numeral a / numeral b) =
     (if 2 * (numeral a mod numeral b) < (numeral b :: int) then numeral a div numeral b
      else if (numeral b :: int) < 2 * (numeral a mod numeral b) then numeral a div numeral b + 1
      else if even (numeral a div numeral b :: int) then numeral a div numeral b
      else numeral a div numeral b + 1)"
  using round_half_even_frac [of "numeral b" "numeral a"] by simp

lemma round_half_even_numeral: "round_half_even (numeral a) = numeral a"
  by (simp add: round_half_even_def Let_def)

lemma floor_numeral_frac: "\<lfloor>(numeral a / numeral b :: rat)\<rfloor> = numeral a div numeral b"
  using floor_divide_of_int_eq [of "numeral a" "numeral b", where ?'a = rat] by simp

lemmas float_eval =
  round_half_even_numeral_frac round_half_even_numeral floor_numeral_frac power_int_minus_divide




text \<open>57 of 100 tasks: the product \<open>0.57 * 100\<close> is the double just below 57, and
  the percentage is 56, one less than \<open>100 * 57 div 100\<close>.\<close>

lemma round_double_57_100: "round_double (57 / 100) = 5134103575202365 / 2 ^ 53"
  using round_double_normal [of "57 / 100" "- 1"]
  by (simp add: float_eval)

lemma round_double_57:
  "round_double (128352589380059125 / 2251799813685248) = 8022036836253695 / 140737488355328"
  using round_double_normal [of "128352589380059125 / 2251799813685248" 5]
  by (simp add: float_eval)

lemma percent_57_of_100: "percent_of 57 100 = Inr 56"
  by (simp add: percent_of_def int_true_div_def float_mul_def int_of_float_def is_infinite_def
      round_double_57_100 round_double_57 float_eval)

subsection \<open>Whole-number percentages\<close>

text \<open>
  When \<open>total\<close> divides \<open>100 * done\<close>, the quotient \<open>done / total\<close> is \<open>k / 100\<close>
  for a whole number \<open>k\<close> of at most 100, and the percentage is that of \<open>k\<close> out of
  100. In double precision the product \<open>(k / 100) * 100\<close> is \<open>k\<close> or just above it
  for every such \<open>k\<close> but 29, 57 and 58. Each row below gives the nearest double of
  \<open>k / 100\<close>, that of the product, and the binary exponents of the two exact values.
\<close>

lemma hundredth:
  fixes k :: nat and x y :: rat and l1 l2 :: int
  assumes k: "0 < k" "k \<le> 100"
      and q1: "2 powi l1 \<le> (of_nat k / 100 :: rat)" "(of_nat k / 100 :: rat) < 2 powi (l1 + 1)"
              "- 1022 \<le> l1"
      and x: "of_int (round_half_even (of_nat k / 100 / 2 powi (l1 - 52))) * 2 powi (l1 - 52) = x"
      and q2: "2 powi l2 \<le> x * 100" "x * 100 < 2 powi (l2 + 1)" "- 1022 \<le> l2"
      and y: "of_int (round_half_even (x * 100 / 2 powi (l2 - 52))) * 2 powi (l2 - 52) = y"
  shows "percent_of k 100 = Inr \<lfloor>y\<rfloor>"
proof -
  have kr: "0 < (of_nat k / 100 :: rat)" using k(1) by simp
  have rx: "round_double (of_nat k / 100) = x"
    using round_double_normal [OF kr q1] x by simp
  have "(100::nat) < 2 ^ 40" by simp
  note fl = progress_floats [OF k this]
  from fl(2,3) have xb: "0 < x" "x \<le> 2"
    by (simp_all add: rx)
  then have "0 < x * 100" by simp
  from round_double_normal [OF this q2] y have ry: "round_double (x * 100) = y"
    by simp
  from fl(5) have y0: "0 < y" by (simp add: rx ry)
  from fl(4) have "\<bar>y - 100 * (of_nat k / 100)\<bar> \<le> 300 / 2 ^ 53" by (simp add: rx ry)
  then have "y - 100 * (of_nat k / 100) \<le> 300 / 2 ^ 53" by (rule abs_le_D1)
  moreover have "(of_nat k :: rat) \<le> 100" using k(2) by (metis of_nat_le_iff of_nat_numeral)
  ultimately have "y \<le> 101" by simp
  with y0 have "\<not> is_infinite y" by (simp add: is_infinite_def)
  moreover have "\<not> is_infinite x" using xb by (simp add: is_infinite_def)
  ultimately show ?thesis
    using y0
    by (simp add: percent_of_def int_true_div_def float_mul_def int_of_float_def Let_def rx ry)
qed


































































































text \<open>At 29 and 58, as at 57, the product falls just below the whole number.\<close>

lemma percent_29_of_100: "percent_of 29 100 = Inr 28"
  using hundredth [of 29 "- 2" "5224175567749775 / 2 ^ 54" 4 "8162774324609023 / 2 ^ 48"]
  by (simp add: float_eval)

lemma percent_58_of_100: "percent_of 58 100 = Inr 57"
  using hundredth [of 58 "- 1" "5224175567749775 / 2 ^ 53" 5 "8162774324609023 / 2 ^ 47"]
  by (simp add: float_eval)




subsection \<open>The progress block of \<open>get_zip_job_status\<close>\<close>






section \<open>Claim about the progress percentage\<close>







section \<open>Properties of the pixel normalizer\<close>

subsection \<open>Rounding into a floating-point format\<close>

lemma round_double_binary64: "round_double q = round_float binary64 q"
  by (simp add: round_double_def round_float_def ulp_exp_def binary64_def)

lemma round_half_even_le:
  assumes "x \<le> of_int K"
  shows "round_half_even x \<le> K"
proof (cases "\<lfloor>x\<rfloor> = K")
  case True
  with assms have "x - of_int \<lfloor>x\<rfloor> < 1 / 2" by simp
  with True show ?thesis by (simp add: round_half_even_def Let_def)
next
  case False
  moreover have "\<lfloor>x\<rfloor> \<le> K" using assms by (simp add: floor_le_iff)
  ultimately have "\<lfloor>x\<rfloor> + 1 \<le> K" by simp
  then show ?thesis by (simp add: round_half_even_def Let_def)
qed

lemma round_half_even_ge:
  assumes "of_int K \<le> x"
  shows "K \<le> round_half_even x"
proof -
  have "K \<le> \<lfloor>x\<rfloor>" using assms by (simp add: le_floor_iff)
  then show ?thesis by (simp add: round_half_even_def Let_def)
qed

lemma round_half_even_of_int [simp]: "round_half_even (of_int K) = K"
  by (simp add: round_half_even_def Let_def)

lemma round_float_zero [simp]: "round_float fmt 0 = 0"
  by (simp add: round_float_def)

lemma round_float_pos:
  assumes "0 < q"
  shows "round_float fmt q
         = of_int (round_half_even (q / 2 powi ulp_exp fmt q)) * 2 powi ulp_exp fmt q"
  using assms by (simp add: round_float_def Let_def)

lemma round_float_nonneg:
  assumes "0 \<le> q"
  shows "0 \<le> round_float fmt q"
proof (cases "q = 0")
  case True
  then show ?thesis by simp
next
  case False
  with assms have q: "0 < q" by simp
  have "(of_int 0 :: rat) \<le> q / 2 powi ulp_exp fmt q" using q by simp
  then have "0 \<le> round_half_even (q / 2 powi ulp_exp fmt q)" by (rule round_half_even_ge)
  then show ?thesis by (simp add: round_float_pos [OF q])
qed

text \<open>Every value of the format is a whole multiple of its least subnormal number.\<close>

lemma round_float_multiple: "\<exists>n::int. round_float fmt q = of_int n * 2 powi min_exp fmt"
proof (cases "q = 0")
  case True
  have "round_float fmt q = of_int 0 * 2 powi min_exp fmt" using True by simp
  then show ?thesis by blast
next
  case False
  define e where "e = ulp_exp fmt q"
  define s :: int where "s = (if 0 < q then 1 else - 1)"
  define k where "k = round_half_even (\<bar>q\<bar> / 2 powi e)"
  have "min_exp fmt \<le> e" by (simp add: e_def ulp_exp_def)
  then have "(2::rat) powi e = 2 powi (e - min_exp fmt) * 2 powi min_exp fmt"
    by (simp add: power_int_add [symmetric])
  moreover have "(2::rat) powi (e - min_exp fmt) = of_int (2 ^ nat (e - min_exp fmt))"
    using \<open>min_exp fmt \<le> e\<close> by (intro two_powi_nat) simp
  ultimately have P: "(2::rat) powi e = of_int (2 ^ nat (e - min_exp fmt)) * 2 powi min_exp fmt"
    by simp
  have sg: "sgn q = of_int s" using False by (simp add: s_def sgn_if)
  have "round_float fmt q = of_int s * of_int k * 2 powi e"
    using False by (simp add: round_float_def Let_def e_def k_def sg)
  also have "\<dots> = of_int (s * k * 2 ^ nat (e - min_exp fmt)) * 2 powi min_exp fmt"
    by (subst P) (simp del: of_int_power)
  finally show ?thesis by blast
qed

lemma ilog2_less:
  assumes "0 < q" and "q < 2 powi k"
  shows "ilog2 q < k"
proof (rule ccontr)
  assume "\<not> ilog2 q < k"
  then have "(2::rat) powi k \<le> 2 powi ilog2 q"
    by (intro power_int_increasing) simp_all
  with ilog2_bounds(1) [OF assms(1)] assms(2) show False by simp
qed

lemma ulp_exp_nonpos:
  assumes "0 < q" and "q < 2 ^ precision fmt" and "min_exp fmt \<le> 0"
  shows "ulp_exp fmt q \<le> 0"
proof -
  have "q < 2 powi int (precision fmt)" using assms(2) by simp
  with assms(1) have "ilog2 q < int (precision fmt)" by (rule ilog2_less)
  then show ?thesis using assms(1,3) by (simp add: ulp_exp_def)
qed

lemma ulp_exp_below:
  assumes "0 < q" and "2 powi min_exp fmt \<le> q" and "1 \<le> precision fmt"
  shows "2 powi ulp_exp fmt q \<le> q"
proof (cases "ilog2 q - (int (precision fmt) - 1) \<le> min_exp fmt")
  case True
  then have "ulp_exp fmt q = min_exp fmt" using assms(1) by (simp add: ulp_exp_def)
  with assms(2) show ?thesis by simp
next
  case False
  then have "ulp_exp fmt q = ilog2 q - (int (precision fmt) - 1)"
    using assms(1) by (simp add: ulp_exp_def)
  moreover have "(2::rat) powi (ilog2 q - (int (precision fmt) - 1)) \<le> 2 powi ilog2 q"
    using assms(3) by (intro power_int_increasing) simp_all
  ultimately show ?thesis using ilog2_bounds(1) [OF assms(1)] by simp
qed

text \<open>The difference of two distinct values of the format does not round to zero.\<close>

lemma round_float_above:
  assumes "2 powi min_exp fmt \<le> q" and "1 \<le> precision fmt"
  shows "0 < round_float fmt q"
proof -
  have q: "0 < q" using assms(1) two_powi_pos [of "min_exp fmt"] by linarith
  define e where "e = ulp_exp fmt q"
  have "2 powi e \<le> q" unfolding e_def using q assms by (rule ulp_exp_below)
  then have "(of_int 1 :: rat) \<le> q / 2 powi e" by (simp add: le_divide_eq)
  then have "1 \<le> round_half_even (q / 2 powi e)" by (rule round_half_even_ge)
  then have "0 < round_half_even (q / 2 powi e)" by simp
  then show ?thesis by (simp add: round_float_pos [OF q] e_def [symmetric])
qed

text \<open>Rounding does not cross a whole number that the format holds exactly.\<close>

lemma round_float_le_nat:
  fixes N :: nat
  assumes "q \<le> of_nat N" and "N < 2 ^ precision fmt" and "min_exp fmt \<le> 0"
  shows "round_float fmt q \<le> of_nat N"
proof (cases "0 < q")
  case False
  then have "round_float fmt q \<le> 0"
    using round_float_nonneg [of "- q" fmt]
    by (cases "q = 0") (simp_all add: round_float_def Let_def ulp_exp_def)
  then show ?thesis by (meson of_nat_0_le_iff order_trans)
next
  case q: True
  define e where "e = ulp_exp fmt q"
  define K where "K = int N * 2 ^ nat (- e)"
  have "(of_nat N :: rat) < 2 ^ precision fmt"
    using assms(2) by (metis of_nat_less_iff of_nat_numeral of_nat_power)
  with assms(1) have "q < 2 ^ precision fmt" by (rule le_less_trans)
  with q have e: "e \<le> 0" unfolding e_def using assms(3) by (rule ulp_exp_nonpos)
  then have P: "(2::rat) powi e = 1 / 2 ^ nat (- e)"
    by (metis minus_minus power_int_minus_divide power_int_of_nat int_nat_eq neg_0_le_iff_le)
  have "q / 2 powi e \<le> of_nat N / 2 powi e"
    using assms(1) by (intro divide_right_mono) simp_all
  also have "\<dots> = of_int K" by (simp add: P K_def)
  finally have "round_half_even (q / 2 powi e) \<le> K" by (rule round_half_even_le)
  then have "(of_int (round_half_even (q / 2 powi e)) :: rat) \<le> of_int K" by simp
  then have "of_int (round_half_even (q / 2 powi e)) * 2 powi e \<le> (of_int K :: rat) * 2 powi e"
    by (intro mult_right_mono) simp_all
  also have "(of_int K :: rat) * 2 powi e = of_nat N" by (simp add: P K_def)
  finally show ?thesis by (simp add: round_float_pos [OF q] e_def [symmetric])
qed

lemma round_float_nat:
  fixes N :: nat
  assumes "N < 2 ^ precision fmt" and "min_exp fmt \<le> 0"
  shows "round_float fmt (of_nat N) = of_nat N"
proof (cases "N = 0")
  case True
  then show ?thesis by simp
next
  case False
  then have q: "0 < (of_nat N :: rat)" by simp
  define e where "e = ulp_exp fmt (of_nat N)"
  define K where "K = int N * 2 ^ nat (- e)"
  have "(of_nat N :: rat) < 2 ^ precision fmt"
    using assms(1) by (metis of_nat_less_iff of_nat_numeral of_nat_power)
  with q have e: "e \<le> 0" unfolding e_def using assms(2) by (rule ulp_exp_nonpos)
  then have P: "(2::rat) powi e = 1 / 2 ^ nat (- e)"
    by (metis minus_minus power_int_minus_divide power_int_of_nat int_nat_eq neg_0_le_iff_le)
  have "of_nat N / 2 powi e = (of_int K :: rat)" by (simp add: P K_def)
  then have "round_half_even (of_nat N / 2 powi e) = K" by simp
  moreover have "(of_int K :: rat) * 2 powi e = of_nat N" by (simp add: P K_def)
  ultimately show ?thesis by (simp add: round_float_pos [OF q] e_def [symmetric])
qed

lemma round_to_Fin:
  "round_to fmt q = Fin s \<longleftrightarrow> s = round_float fmt q \<and> \<bar>s\<bar> < 2 ^ max_exp fmt"
  by (auto simp: round_to_def Let_def abs_less_iff)

lemma round_to_zero [simp]: "round_to fmt 0 = Fin 0"
  by (simp add: round_to_Fin)

lemma round_to_nat:
  fixes N :: nat
  assumes "N < 2 ^ precision fmt" and "min_exp fmt \<le> 0" and "N < 2 ^ max_exp fmt"
  shows "round_to fmt (of_nat N) = Fin (of_nat N)"
proof -
  have "(of_nat N :: rat) < 2 ^ max_exp fmt"
    using assms(3) by (metis of_nat_less_iff of_nat_numeral of_nat_power)
  then show ?thesis
    by (simp add: round_to_Fin round_float_nat [OF assms(1,2)])
qed

lemma round_to_binary32:
  "round_to binary32 1 = Fin 1" "round_to binary32 2 = Fin 2" "round_to binary32 4 = Fin 4"
  using round_to_nat [of 1 binary32] round_to_nat [of 2 binary32] round_to_nat [of 4 binary32]
  by (simp_all add: binary32_def)

lemma round_to_binary32_overflow: "round_to binary32 (2 ^ 200) = PInf"
proof -
  have "ilog2 (2 ^ 200) = 200"
    by (rule ilog2_unique) simp_all
  then have "ulp_exp binary32 (2 ^ 200) = 177"
    by (simp add: ulp_exp_def binary32_def)
  then have "round_float binary32 (2 ^ 200) = 2 ^ 200"
    using round_float_pos [of "2 ^ 200" binary32]
    by (simp add: float_eval)
  then show ?thesis
    by (simp add: round_to_def binary32_def)
qed

subsection \<open>The operations on finite values\<close>

lemma minimum_Fin: "minimum (Fin a) (Fin b) = Fin (min a b)"
  by (simp add: minimum_def min_def)

lemma maximum_Fin: "maximum (Fin a) (Fin b) = Fin (max a b)"
  by (auto simp: maximum_def max_def)

lemma array_min_Fin: "array_min (map Fin (q # qs)) = Inr (Fin (Min (set (q # qs))))"
proof -
  have "fold (\<lambda>y acc. minimum acc y) (map Fin qs) (Fin q) = Fin (fold min qs q)" for q
    by (induction qs arbitrary: q) (simp_all add: minimum_Fin min.commute)
  then show ?thesis
    unfolding Min.set_eq_fold by simp
qed

lemma array_max_Fin: "array_max (map Fin (q # qs)) = Inr (Fin (Max (set (q # qs))))"
proof -
  have "fold (\<lambda>y acc. maximum acc y) (map Fin qs) (Fin q) = Fin (fold max qs q)" for q
    by (induction qs arbitrary: q) (simp_all add: maximum_Fin max.commute)
  then show ?thesis
    unfolding Max.set_eq_fold by simp
qed

lemma f_sub_Fin:
  assumes "f_sub fmt x lo = Fin s"
  shows "\<exists>a b. x = Fin a \<and> lo = Fin b \<and> round_to fmt (a - b) = Fin s"
  using assms by (cases x; cases lo) (simp_all add: f_sub_def)

lemma f_add_Fin:
  assumes "f_add fmt a b = Fin r"
  shows "\<exists>q. r = round_float fmt q"
  using assms by (cases a; cases b) (auto simp: round_to_Fin)

lemma astype_uint8_le: "astype_uint8 wild v \<le> 255"
proof -
  have m: "wild v mod 256 \<le> 255"
    using mod_less_divisor [of 256 "wild v"] by linarith
  show ?thesis
  proof (cases v)
    case (Fin x)
    show ?thesis
    proof (cases "- 1 < x \<and> x < 256 \<and> 0 \<le> x")
      case True
      then have "nat \<lfloor>x\<rfloor> \<le> 255" by (simp add: nat_le_iff floor_le_iff)
      then show ?thesis using True by (simp add: astype_uint8_def Fin)
    next
      case False
      then show ?thesis using m by (auto simp: astype_uint8_def Fin)
    qed
  qed (simp_all add: astype_uint8_def m)
qed

lemma astype_uint8_Fin:
  assumes "0 \<le> w" and "w \<le> 255"
  shows "astype_uint8 wild (Fin w) = nat \<lfloor>w\<rfloor>"
  using assms by (simp add: astype_uint8_def)

text \<open>A format as wide as a byte holds 1 and 255.\<close>

lemma byte_format:
  assumes "8 \<le> precision fmt" and "8 \<le> max_exp fmt"
  shows "(1::nat) < 2 ^ precision fmt" and "(255::nat) < 2 ^ precision fmt"
    and "(256::rat) \<le> 2 ^ max_exp fmt"
proof -
  have "(2::nat) ^ 8 \<le> 2 ^ precision fmt"
    using assms(1) by (intro power_increasing) simp_all
  then show "(1::nat) < 2 ^ precision fmt" and "(255::nat) < 2 ^ precision fmt"
    by simp_all
  have "(2::rat) ^ 8 \<le> 2 ^ max_exp fmt"
    using assms(2) by (intro power_increasing) simp_all
  then show "(256::rat) \<le> 2 ^ max_exp fmt" by simp
qed

text \<open>One pixel of the stretch \<open>(x / max) * 255\<close>, for \<open>0 \<le> x \<le> max\<close>.\<close>

lemma stretch_value:
  assumes fmt: "8 \<le> precision fmt" "min_exp fmt \<le> 0" "8 \<le> max_exp fmt"
      and s: "0 \<le> s" "s \<le> M" "0 < M"
  shows "\<exists>w. f_mul fmt (f_div fmt (Fin s) (Fin M)) (round_to fmt 255) = Fin w
              \<and> 0 \<le> w \<and> w \<le> 255 \<and> (s = 0 \<longrightarrow> w = 0) \<and> (s = M \<longrightarrow> w = 255)"
proof -
  note bf = byte_format [OF fmt(1,3)]
  define v where "v = round_float fmt (s / M)"
  define w where "w = round_float fmt (v * 255)"
  have v0: "0 \<le> v" unfolding v_def using s by (intro round_float_nonneg) simp
  have "s / M \<le> of_nat 1" using s by simp
  from round_float_le_nat [OF this bf(1) fmt(2)] have v1: "v \<le> 1" by (simp add: v_def)
  have "\<bar>v\<bar> < 2 ^ max_exp fmt" using v0 v1 bf(3) by simp
  then have dv: "f_div fmt (Fin s) (Fin M) = Fin v"
    using s(3) by (simp add: round_to_Fin v_def)
  have r255: "round_float fmt 255 = 255"
    using round_float_nat [OF bf(2) fmt(2)] by simp
  have "\<bar>255::rat\<bar> < 2 ^ max_exp fmt" using bf(3) by simp
  then have c255: "round_to fmt 255 = Fin 255"
    by (simp add: round_to_Fin r255)
  have w0: "0 \<le> w" unfolding w_def using v0 by (intro round_float_nonneg) simp
  have "v * 255 \<le> of_nat 255" using v1 by simp
  from round_float_le_nat [OF this bf(2) fmt(2)] have w1: "w \<le> 255" by (simp add: w_def)
  have "\<bar>w\<bar> < 2 ^ max_exp fmt" using w0 w1 bf(3) by simp
  then have mw: "f_mul fmt (Fin v) (Fin 255) = Fin w"
    by (simp add: round_to_Fin w_def)
  have z: "w = 0" if "s = 0"
    using that by (simp add: w_def v_def)
  have "round_float fmt 1 = 1"
    using round_float_nat [OF bf(1) fmt(2)] by simp
  then have t: "w = 255" if "s = M"
    using that s(3) by (simp add: w_def v_def r255)
  show ?thesis
    using dv c255 mw w0 w1 z t by auto
qed

text \<open>One pixel of the shift \<open>x - min\<close>, for two values of the format.\<close>

lemma shift_value:
  assumes p: "1 \<le> precision fmt"
      and r: "r = of_int n1 * 2 powi min_exp fmt"
      and m: "m = of_int n2 * 2 powi min_exp fmt"
      and le: "m \<le> r"
  shows "0 \<le> round_float fmt (r - m)" and "r \<noteq> m \<Longrightarrow> 0 < round_float fmt (r - m)"
proof -
  show "0 \<le> round_float fmt (r - m)"
    using le by (intro round_float_nonneg) simp
  assume "r \<noteq> m"
  with le have "m < r" by simp
  then have "of_int n2 * 2 powi min_exp fmt < (of_int n1 :: rat) * 2 powi min_exp fmt"
    by (simp only: r m)
  then have "n2 < n1" by (simp add: mult_less_cancel_right)
  then have "(1::rat) \<le> of_int (n1 - n2)" by (simp del: of_int_diff)
  then have "1 * 2 powi min_exp fmt \<le> (of_int (n1 - n2) :: rat) * 2 powi min_exp fmt"
    by (intro mult_right_mono) simp_all
  then have "2 powi min_exp fmt \<le> r - m"
    by (simp add: r m algebra_simps)
  then show "0 < round_float fmt (r - m)" using p by (rule round_float_above)
qed

subsection \<open>The normalizer on a grid\<close>

lemma concat_rescaled_grid:
  "concat (rescaled_grid fmt pixels slope intercept)
   = map (\<lambda>p. f_add fmt (f_mul fmt (round_to binary32 (of_int p)) (round_to fmt slope))
                         (round_to fmt intercept))
         (concat pixels)"
  by (simp add: rescaled_grid_def map_concat)

lemma array_min_Inr: "xs \<noteq> [] \<Longrightarrow> \<exists>lo. array_min xs = Inr lo"
  by (cases xs) simp_all

lemma array_max_Inr: "xs \<noteq> [] \<Longrightarrow> \<exists>hi. array_max xs = Inr hi"
  by (cases xs) simp_all

text \<open>The image has the shape of the pixel array, and its values are bytes.\<close>

lemma dicom_to_image_shape:
  assumes ne: "concat pixels \<noteq> []"
  shows "\<exists>out. dicom_to_image fmt wild pixels slope intercept = Inr out
              \<and> map length out = map length pixels
              \<and> (\<forall>v\<in>set (concat out). v \<le> 255)"
proof -
  define G where "G = rescaled_grid fmt pixels slope intercept"
  have lenG: "map length G = map length pixels"
    by (simp add: G_def rescaled_grid_def)
  have "concat G \<noteq> []"
    using ne by (simp add: G_def concat_rescaled_grid)
  then obtain lo where lo: "array_min (concat G) = Inr lo"
    using array_min_Inr by blast
  define S where "S = map (map (\<lambda>x. f_sub fmt x lo)) G"
  have sh: "shifted_grid fmt G = Inr S"
    by (simp add: shifted_grid_def lo S_def)
  have lenS: "map length S = map length G"
    by (simp add: S_def)
  have "concat S = map (\<lambda>x. f_sub fmt x lo) (concat G)"
    by (simp add: S_def map_concat)
  with \<open>concat G \<noteq> []\<close> have "concat S \<noteq> []" by simp
  then obtain hi where hi: "array_max (concat S) = Inr hi"
    using array_max_Inr by blast
  define T where
    "T = (if f_less (Fin 0) hi
          then map (map (\<lambda>x. f_mul fmt (f_div fmt x hi) (round_to fmt 255))) S else S)"
  have st: "stretched_grid fmt S = Inr T"
    by (simp add: stretched_grid_def hi T_def)
  have lenT: "map length T = map length S"
    by (simp add: T_def)
  define out where "out = map (map (astype_uint8 wild)) T"
  have run: "dicom_to_image fmt wild pixels slope intercept = Inr out"
    by (simp add: dicom_to_image_def G_def [symmetric] sh st out_def)
  have "map length out = map length T"
    by (simp add: out_def)
  then have shape: "map length out = map length pixels"
    by (simp only: lenT lenS lenG)
  have "concat out = map (astype_uint8 wild) (concat T)"
    by (simp add: out_def map_concat)
  then have "\<forall>v\<in>set (concat out). v \<le> 255"
    by (auto simp: astype_uint8_le)
  with run shape show ?thesis by blast
qed

text \<open>
  When no shifted value is an infinity or a NaN: a constant rescaled array gives the
  image of zeros, any other one an image that has a 0 and a 255.
\<close>

lemma dicom_to_image_finite:
  assumes fmt: "8 \<le> precision fmt" "min_exp fmt \<le> 0" "8 \<le> max_exp fmt"
      and sh: "shifted_grid fmt (rescaled_grid fmt pixels slope intercept) = Inr shifted"
      and fin: "finite_grid shifted"
  shows "\<exists>out. dicom_to_image fmt wild pixels slope intercept = Inr out
              \<and> (if constant_grid (rescaled_grid fmt pixels slope intercept)
                 then \<forall>v\<in>set (concat out). v = 0
                 else 0 \<in> set (concat out) \<and> 255 \<in> set (concat out))"
proof -
  define G where "G = rescaled_grid fmt pixels slope intercept"
  define xs where "xs = concat G"
  from sh obtain lo where lo: "array_min xs = Inr lo"
    and shifted: "shifted = map (map (\<lambda>x. f_sub fmt x lo)) G"
    by (auto simp: shifted_grid_def G_def xs_def split: sum.splits)
  have cs: "concat shifted = map (\<lambda>x. f_sub fmt x lo) xs"
    by (simp add: shifted xs_def map_concat)
  have xs_ne: "xs \<noteq> []" using lo by (cases xs) simp_all
  have allfin: "\<exists>s. f_sub fmt x lo = Fin s" if "x \<in> set xs" for x
  proof -
    from fin that have "case f_sub fmt x lo of Fin s \<Rightarrow> True | _ \<Rightarrow> False"
      by (simp add: finite_grid_def cs list_all_iff)
    then show ?thesis by (cases "f_sub fmt x lo") simp_all
  qed
  have "\<forall>x\<in>set xs. \<exists>a. x = Fin a"
    using allfin f_sub_Fin by blast
  then obtain rs where rs: "xs = map Fin rs"
    by (metis ex_map_conv)
  with xs_ne obtain r0 rs' where rs': "rs = r0 # rs'"
    by (cases rs) simp_all
  define m where "m = Min (set rs)"
  have lo_m: "lo = Fin m"
    using lo array_min_Fin [of r0 rs'] by (simp add: rs rs' m_def)
  have m_in: "m \<in> set rs"
    unfolding m_def by (intro Min_in) (simp_all add: rs')
  have m_le: "m \<le> r" if "r \<in> set rs" for r
    unfolding m_def using that by (intro Min_le) simp_all
  have multiple: "\<exists>n::int. r = of_int n * 2 powi min_exp fmt" if "r \<in> set rs" for r
  proof -
    from that have "Fin r \<in> set (concat (rescaled_grid fmt pixels slope intercept))"
      by (simp add: xs_def [symmetric] G_def [symmetric] rs)
    then obtain a b where "f_add fmt a b = Fin r"
      unfolding concat_rescaled_grid by auto
    then obtain q where "r = round_float fmt q"
      using f_add_Fin by blast
    then show ?thesis using round_float_multiple by simp
  qed
  define sf where "sf = (\<lambda>r. round_float fmt (r - m))"
  define ss where "ss = map sf rs"
  have sub: "f_sub fmt (Fin r) lo = Fin (sf r)" if "r \<in> set rs" for r
  proof -
    from that have "Fin r \<in> set xs" by (simp add: rs)
    from allfin [OF this] obtain s where "f_sub fmt (Fin r) lo = Fin s" by blast
    then show ?thesis by (auto simp: f_sub_def lo_m round_to_Fin sf_def)
  qed
  have cs': "concat shifted = map Fin ss"
    using sub by (simp add: cs rs ss_def)
  define M where "M = Max (set ss)"
  have hi: "array_max (concat shifted) = Inr (Fin M)"
    using array_max_Fin [of "sf r0" "map sf rs'"] by (simp add: cs' ss_def rs' M_def)
  have M_in: "M \<in> set ss"
    unfolding M_def by (intro Max_in) (simp_all add: ss_def rs')
  have le_M: "s \<le> M" if "s \<in> set ss" for s
    unfolding M_def using that by (intro Max_ge) simp_all
  have p1: "1 \<le> precision fmt" using fmt(1) by simp
  have sf0: "0 \<le> sf r" if "r \<in> set rs" for r
  proof -
    from multiple [OF that] obtain n1 :: int where n1: "r = of_int n1 * 2 powi min_exp fmt"
      by blast
    from multiple [OF m_in] obtain n2 :: int where n2: "m = of_int n2 * 2 powi min_exp fmt"
      by blast
    show ?thesis
      unfolding sf_def using p1 n1 n2 m_le [OF that] by (rule shift_value(1))
  qed
  have sfpos: "0 < sf r" if "r \<in> set rs" and "r \<noteq> m" for r
  proof -
    from multiple [OF that(1)] obtain n1 :: int where n1: "r = of_int n1 * 2 powi min_exp fmt"
      by blast
    from multiple [OF m_in] obtain n2 :: int where n2: "m = of_int n2 * 2 powi min_exp fmt"
      by blast
    show ?thesis
      unfolding sf_def using p1 n1 n2 m_le [OF that(1)] that(2) by (rule shift_value(2))
  qed
  have ss0: "0 \<le> s" if "s \<in> set ss" for s
    using that sf0 by (auto simp: ss_def)
  have zero_in: "0 \<in> set ss"
  proof -
    have "sf m = 0" by (simp add: sf_def)
    with m_in show ?thesis by (force simp: ss_def)
  qed
  have M0: "0 \<le> M" using ss0 [OF M_in] .
  define T where
    "T = (if 0 < M
          then map (map (\<lambda>x. f_mul fmt (f_div fmt x (Fin M)) (round_to fmt 255))) shifted
          else shifted)"
  have st: "stretched_grid fmt shifted = Inr T"
    by (simp add: stretched_grid_def hi T_def)
  define out where "out = map (map (astype_uint8 wild)) T"
  have run: "dicom_to_image fmt wild pixels slope intercept = Inr out"
    by (simp add: dicom_to_image_def sh st out_def)
  have co: "concat out = map (astype_uint8 wild) (concat T)"
    by (simp add: out_def map_concat)
  have hd_in: "hd rs \<in> set rs" by (simp add: rs')
  have const: "constant_grid G \<longleftrightarrow> (\<forall>r\<in>set rs. r = hd rs)"
    by (auto simp: constant_grid_def xs_def [symmetric] rs rs' list_all_iff)
  show ?thesis
  proof (cases "constant_grid G")
    case True
    then have all: "r = hd rs" if "r \<in> set rs" for r
      using that const by blast
    have "m = hd rs" using m_in by (rule all)
    then have "sf r = 0" if "r \<in> set rs" for r
      using all [OF that] by (simp add: sf_def)
    then have ss_zero: "s = 0" if "s \<in> set ss" for s
      using that by (auto simp: ss_def)
    then have "M = 0" using M_in by blast
    then have "concat T = map Fin ss" by (simp add: T_def cs')
    then have "concat out = map (\<lambda>s. astype_uint8 wild (Fin s)) ss"
      by (simp add: co)
    moreover have "astype_uint8 wild (Fin s) = 0" if "s \<in> set ss" for s
      using ss_zero [OF that] by (simp add: astype_uint8_def)
    ultimately have "\<forall>v\<in>set (concat out). v = 0"
      by auto
    with run True show ?thesis by (auto simp: G_def)
  next
    case False
    then obtain r where r: "r \<in> set rs" "r \<noteq> hd rs"
      using const by blast
    have "\<exists>r\<in>set rs. r \<noteq> m"
    proof (cases "hd rs = m")
      case True
      with r show ?thesis by auto
    next
      case False
      with hd_in show ?thesis by blast
    qed
    then obtain r' where "r' \<in> set rs" "r' \<noteq> m" by blast
    then have "0 < sf r'" by (rule sfpos)
    moreover have "sf r' \<le> M"
      using \<open>r' \<in> set rs\<close> by (intro le_M) (simp add: ss_def)
    ultimately have Mpos: "0 < M" by simp
    define g where "g = (\<lambda>s. f_mul fmt (f_div fmt (Fin s) (Fin M)) (round_to fmt 255))"
    have "concat T = map (\<lambda>x. f_mul fmt (f_div fmt x (Fin M)) (round_to fmt 255)) (concat shifted)"
      using Mpos by (simp add: T_def map_concat)
    then have cT: "concat T = map g ss"
      by (simp add: cs' g_def)
    have co': "concat out = map (\<lambda>s. astype_uint8 wild (g s)) ss"
      by (simp add: co cT)
    from stretch_value [OF fmt M0 order_refl Mpos]
    obtain w where w: "g M = Fin w" "w = 255"
      unfolding g_def by auto
    then have "astype_uint8 wild (g M) = 255"
      by (simp add: astype_uint8_def)
    with M_in have top: "255 \<in> set (concat out)"
      unfolding co' by force
    from stretch_value [OF fmt order_refl M0 Mpos]
    obtain z where z: "g 0 = Fin z" "z = 0"
      unfolding g_def by auto
    then have "astype_uint8 wild (g 0) = 0"
      by (simp add: astype_uint8_def)
    with zero_in have bottom: "0 \<in> set (concat out)"
      unfolding co' by force
    from run False top bottom show ?thesis by (auto simp: G_def)
  qed
qed

text \<open>
  A slice without a pixel raises. A slice whose rescale overflows to the same infinity
  everywhere has a constant rescaled array, and its image is whatever the conversion of
  a NaN to a byte leaves.
\<close>

lemma dicom_to_image_empty: "dicom_to_image fmt wild [] slope intercept = Inl ValueError"
  by (simp add: dicom_to_image_def shifted_grid_def rescaled_grid_def)

lemma dicom_to_image_overflow:
  assumes "round_to binary32 intercept = PInf"
  shows "constant_grid (rescaled_grid binary32 [[1, 1]] 1 intercept)"
    and "dicom_to_image binary32 wild [[1, 1]] 1 intercept
         = Inr [[wild NaN mod 256, wild NaN mod 256]]"
  by (simp_all add: dicom_to_image_def shifted_grid_def rescaled_grid_def stretched_grid_def
      round_to_binary32 assms minimum_def maximum_def f_sub_def astype_uint8_def
      constant_grid_def)

lemma dicom_to_image_overflow_2_200:
  "constant_grid (rescaled_grid binary32 [[1, 1]] 1 (2 ^ 200))"
  "dicom_to_image binary32 wild [[1, 1]] 1 (2 ^ 200)
   = Inr [[wild NaN mod 256, wild NaN mod 256]]"
  by (rule dicom_to_image_overflow [OF round_to_binary32_overflow])+


section \<open>Claim about the pixel normalizer\<close>

text \<open>
  Claim C3, as stated, at a slice of two pixels 0 and 1 whose rescale slope is 0: the
  input is not constant, the rescaled array is, and the image is all zero; it has no 255.
\<close>

theorem dicom_to_image_zero_slope:
  "(\<forall>wild. dicom_to_image binary32 wild [[0, 1]] 0 0 = Inr [[0, 0]])
   \<and> \<not> constant_grid [[0, 1 :: int]]"
  by (simp add: dicom_to_image_def shifted_grid_def rescaled_grid_def stretched_grid_def
      round_to_binary32 minimum_Fin maximum_Fin f_sub_def astype_uint8_def constant_grid_def)

text \<open>
  Claim C3, amended: for every slice of at least one pixel, in float32 as in float64
  (in any format of at least 8 significant bits that has the numbers below 256), the
  image has the dimensions of the pixel array and every value of it lies in
  \<open>[0, 255]\<close>; and when no rescaled or shifted value is an infinity or a NaN, the
  image is all zero if the rescaled array is constant, with nothing divided, and has
  both a 0 and a 255 if the rescaled array (rather than the input) is not constant.
\<close>

theorem dicom_to_image_normalized:
  assumes fmt: "8 \<le> precision fmt" "min_exp fmt \<le> 0" "8 \<le> max_exp fmt"
      and ne: "concat pixels \<noteq> []"
  shows "\<exists>out. dicom_to_image fmt wild pixels slope intercept = Inr out
              \<and> map length out = map length pixels
              \<and> (\<forall>v\<in>set (concat out). v \<le> 255)
              \<and> (finite_shift fmt pixels slope intercept \<longrightarrow>
                   (if constant_grid (rescaled_grid fmt pixels slope intercept)
                    then \<forall>v\<in>set (concat out). v = 0
                    else 0 \<in> set (concat out) \<and> 255 \<in> set (concat out)))"
proof -
  from dicom_to_image_shape [OF ne] obtain out where out:
    "dicom_to_image fmt wild pixels slope intercept = Inr out"
    "map length out = map length pixels"
    "\<forall>v\<in>set (concat out). v \<le> 255"
    by blast
  have "if constant_grid (rescaled_grid fmt pixels slope intercept)
        then \<forall>v\<in>set (concat out). v = 0
        else 0 \<in> set (concat out) \<and> 255 \<in> set (concat out)"
    if "finite_shift fmt pixels slope intercept"
  proof -
    from that obtain shifted where
      "shifted_grid fmt (rescaled_grid fmt pixels slope intercept) = Inr shifted"
      "finite_grid shifted"
      by (auto simp: finite_shift_def split: sum.splits)
    from dicom_to_image_finite [OF fmt this, of wild] out(1) show ?thesis
      by auto
  qed
  with out show ?thesis by blast
qed

theorem dicom_to_image_normalized_witness:
  "\<forall>wild. \<exists>out. dicom_to_image binary32 wild [[0, 1], [2, 4]] 1 0 = Inr out
                 \<and> map length out = [2, 2]
                 \<and> 0 \<in> set (concat out) \<and> 255 \<in> set (concat out)"
proof
  fix wild
  have fin: "finite_shift binary32 [[0, 1], [2, 4]] 1 0"
    by (simp add: finite_shift_def shifted_grid_def rescaled_grid_def round_to_binary32
        minimum_Fin f_sub_def finite_grid_def)
  have nc: "\<not> constant_grid (rescaled_grid binary32 [[0, 1], [2, 4]] 1 0)"
    by (simp add: constant_grid_def rescaled_grid_def round_to_binary32)
  have fmt: "8 \<le> precision binary32" "min_exp binary32 \<le> 0" "8 \<le> max_exp binary32"
    by (simp_all add: binary32_def)
  have ne: "concat [[0, 1], [2, 4 :: int]] \<noteq> []" by simp
  from dicom_to_image_normalized [OF fmt ne, of wild 1 0] fin nc
  obtain out where out: "dicom_to_image binary32 wild [[0, 1], [2, 4]] 1 0 = Inr out"
    "map length out = map length [[0, 1], [2, 4 :: int]]"
    "0 \<in> set (concat out)" "255 \<in> set (concat out)"
    by auto
  from out(2) have "map length out = [2, 2]" by simp
  with out(1,3,4)
  show "\<exists>out. dicom_to_image binary32 wild [[0, 1], [2, 4]] 1 0 = Inr out
                 \<and> map length out = [2, 2]
                 \<and> 0 \<in> set (concat out) \<and> 255 \<in> set (concat out)"
    by (intro exI [of _ out]) simp
qed

end
